theory Spec2Isabelle
  imports Main
begin

section \<open>Values of the platform\<close>

text \<open>
  The service in \<^verbatim>\<open>frontend/src/services/websocket.ts\<close> runs on the browser's
  event loop: every method and every event handler runs to completion before the next
  one starts. The model is a state record and one function per method or handler.

  A message is whatever \<^verbatim>\<open>JSON.parse\<close> returns (the interface
  \<^verbatim>\<open>WebSocketMessage\<close> types its payload as \<^verbatim>\<open>any\<close> and the cast is unchecked), so
  messages are JavaScript values. \<open>JUndefined\<close> is the result of reading a property
  that is absent. Numbers are never computed on by the modelled code; an integer stands
  for them.
\<close>

datatype json =
    JUndefined
  | JNull
  | JBool bool
  | JNum int
  | JStr string
  | JArr "json list"
  | JObj "(string \<times> json) list"

datatype exn = SyntaxError | TypeError | HandlerError

text \<open>
  Property access \<^verbatim>\<open>v.k\<close> for the property names the code reads
  (\<^verbatim>\<open>type\<close>, \<^verbatim>\<open>payload\<close>, \<^verbatim>\<open>content\<close>, \<^verbatim>\<open>count\<close>): a TypeError on
  \<^verbatim>\<open>undefined\<close> and \<^verbatim>\<open>null\<close>, the property's value on an object that has it,
  \<^verbatim>\<open>undefined\<close> otherwise.
\<close>

fun get_prop :: "json \<Rightarrow> string \<Rightarrow> exn + json" where
  "get_prop JUndefined k = Inl TypeError"
| "get_prop JNull k = Inl TypeError"
| "get_prop (JObj fs) k = Inr (case map_of fs k of None \<Rightarrow> JUndefined | Some v \<Rightarrow> v)"
| "get_prop v k = Inr JUndefined"

datatype readyState = CONNECTING | OPEN | CLOSING | CLOSED

fun code :: "readyState \<Rightarrow> nat" where
  "code CONNECTING = 0"
| "code OPEN = 1"
| "code CLOSING = 2"
| "code CLOSED = 3"

datatype pstate = Pending | Fulfilled | Rejected

datatype level = Info | Warn | Error

text \<open>
  What a message handler does to the service while it runs: it may call the unregister
  capability of a handler, register a handler, or throw. Handlers are identified by a
  number (the identity of the function object, which \<^verbatim>\<open>h !== handler\<close> compares).
\<close>

datatype action = Unregister nat | Register nat | Raise

text \<open>Observations of the dispatch: a handler was called, a handler was removed.\<close>

datatype obs = Invoked nat json | Removed nat

text \<open>
  The parts of the platform the code calls and the model does not define: whether
  \<^verbatim>\<open>new WebSocket(url)\<close> accepts the URL (it throws otherwise), \<^verbatim>\<open>JSON.parse\<close>
  (\<open>None\<close> when it throws), \<^verbatim>\<open>JSON.stringify\<close>, and the bodies of the
  registered handlers.
\<close>

record env =
  ctor_ok :: "string \<Rightarrow> bool"
  JSON_parse :: "string \<Rightarrow> json option"
  JSON_stringify :: "json \<Rightarrow> string"
  handler_body :: "nat \<Rightarrow> json \<Rightarrow> action list"

section \<open>The state of WebSocketService and of the objects it creates\<close>

text \<open>
  The first five fields are the mutable fields of the class. The private fields
  \<^verbatim>\<open>maxReconnectAttempts = 5\<close> and \<^verbatim>\<open>reconnectDelay = 1000\<close> are never assigned
  and are constants below. The other fields are the objects the service creates:
  \<^item> the transports (\<^verbatim>\<open>WebSocket\<close> objects) created so far, numbered from 0, each with
    its ready state and with the promise whose \<^verbatim>\<open>resolve\<close>/\<^verbatim>\<open>reject\<close> its handlers
    captured;
  \<^item> the promises created so far and their states;
  \<^item> the delays of the pending \<^verbatim>\<open>setTimeout\<close> callbacks (the code keeps no handle of
    them);
  \<^item> what was handed to \<^verbatim>\<open>socket.send\<close>, what was written to the console, and the
    observations of handler calls.
\<close>

record world =
  socket :: "nat option"
  reconnectAttempts :: nat
  messageHandlers :: "nat list"
  connectionPromise :: "nat option"
  url :: string
  ready :: "nat \<Rightarrow> readyState"
  resolver :: "nat \<Rightarrow> nat"
  created :: nat
  promises :: "nat \<Rightarrow> pstate"
  npromises :: nat
  timers :: "nat list"
  sent :: "(nat \<times> string) list"
  console :: "(level \<times> string) list"
  calls :: "obs list"

definition maxReconnectAttempts :: nat where
  "maxReconnectAttempts = 5"

definition reconnectDelay :: nat where
  "reconnectDelay = 1000"

definition WebSocket_CLOSED :: nat where
  "WebSocket_CLOSED = code CLOSED"

text \<open>The instance \<^verbatim>\<open>getInstance\<close> creates.\<close>

definition init :: world where
  "init = \<lparr> socket = None, reconnectAttempts = 0, messageHandlers = [],
            connectionPromise = None, url = ''ws://localhost:8080/ws'',
            ready = (\<lambda>_. CLOSED), resolver = (\<lambda>_. 0), created = 0,
            promises = (\<lambda>_. Pending), npromises = 0, timers = [],
            sent = [], console = [], calls = [] \<rparr>"

text \<open>
  The console keeps, for each call of \<^verbatim>\<open>console.log\<close>, \<^verbatim>\<open>warn\<close> or \<^verbatim>\<open>error\<close>,
  the level and the fixed text the call starts with; the values printed after it are left
  out. The rejection handler of the reconnecting callback, which only logs and runs after
  the promise is rejected, is not recorded.
\<close>

definition say :: "level \<Rightarrow> string \<Rightarrow> world \<Rightarrow> world" where
  "say l s w = w\<lparr>console := console w @ [(l, s)]\<rparr>"

definition setUrl :: "string \<Rightarrow> world \<Rightarrow> world" where
  "setUrl u w = w\<lparr>url := u\<rparr>"

text \<open>\<^verbatim>\<open>get isConnected\<close>: \<^verbatim>\<open>this.socket?.readyState === WebSocket.OPEN\<close>.\<close>

definition isConnected :: "world \<Rightarrow> bool" where
  "isConnected w = (case socket w of None \<Rightarrow> False | Some t \<Rightarrow> ready w t = OPEN)"

text \<open>
  \<^verbatim>\<open>a || b\<close> on an optional number: \<^verbatim>\<open>undefined\<close> and \<^verbatim>\<open>0\<close> are falsy.
  \<^verbatim>\<open>get readyState\<close>: \<^verbatim>\<open>this.socket?.readyState || WebSocket.CLOSED\<close>.
\<close>

fun js_or :: "nat option \<Rightarrow> nat \<Rightarrow> nat" where
  "js_or None d = d"
| "js_or (Some v) d = (if v = 0 then d else v)"

definition readyState :: "world \<Rightarrow> nat" where
  "readyState w = js_or (map_option (\<lambda>t. code (ready w t)) (socket w)) WebSocket_CLOSED"

subsection \<open>Promises\<close>

text \<open>\<^verbatim>\<open>resolve\<close> and \<^verbatim>\<open>reject\<close> settle a pending promise and do nothing to a settled one.\<close>

definition settle :: "pstate \<Rightarrow> nat \<Rightarrow> world \<Rightarrow> world" where
  "settle st p w = (if promises w p = Pending then w\<lparr>promises := (promises w)(p := st)\<rparr> else w)"

definition new_promise :: "pstate \<Rightarrow> world \<Rightarrow> nat \<times> world" where
  "new_promise st w =
     (npromises w, w\<lparr>promises := (promises w)(npromises w := st), npromises := Suc (npromises w)\<rparr>)"

subsection \<open>connect\<close>

text \<open>
  The result is the promise the caller's outcome follows, and the new state. The executor
  of \<^verbatim>\<open>new Promise\<close> runs at once, and only then is the promise assigned to
  \<^verbatim>\<open>this.connectionPromise\<close>: the assignment \<^verbatim>\<open>this.connectionPromise = null\<close> of the
  \<^verbatim>\<open>catch\<close> block happens before it.
\<close>

definition connect :: "env \<Rightarrow> world \<Rightarrow> nat \<times> world" where
  "connect E w =
     (if isConnected w then new_promise Fulfilled (say Info ''WebSocket already connected'' w)
      else case connectionPromise w of
        Some p \<Rightarrow> (p, say Info ''WebSocket connection in progress'' w)
      | None \<Rightarrow>
          (let (p, w1) = new_promise Pending w;
               w2 = say Info ''Attempting to connect to:'' w1
           in if ctor_ok E (url w2)
              then (let t = created w2
                    in (p, w2\<lparr>socket := Some t,
                              ready := (ready w2)(t := CONNECTING),
                              resolver := (resolver w2)(t := p),
                              created := Suc t,
                              connectionPromise := Some p\<rparr>))
              else (let w3 = say Error ''Failed to create WebSocket:'' w2;
                        w4 = settle Rejected p (w3\<lparr>connectionPromise := None\<rparr>)
                    in (p, w4\<lparr>connectionPromise := Some p\<rparr>))))"

subsection \<open>send, onMessage, notifyHandlers\<close>

definition send :: "env \<Rightarrow> json \<Rightarrow> world \<Rightarrow> world" where
  "send E m w =
     (if isConnected w
      then (case socket w of
              Some t \<Rightarrow> w\<lparr>sent := sent w @ [(t, JSON_stringify E m)]\<rparr>
            | None \<Rightarrow> w)
      else say Warn ''WebSocket is not connected. Message not sent:'' w)"

text \<open>\<^verbatim>\<open>onMessage(handler)\<close> pushes the handler; the function it returns is \<open>unregister\<close>.\<close>

definition onMessage :: "nat \<Rightarrow> world \<Rightarrow> world" where
  "onMessage h w = w\<lparr>messageHandlers := messageHandlers w @ [h]\<rparr>"

definition unregister :: "nat \<Rightarrow> world \<Rightarrow> world" where
  "unregister h w =
     w\<lparr>messageHandlers := filter (\<lambda>x. x \<noteq> h) (messageHandlers w), calls := calls w @ [Removed h]\<rparr>"

fun perform :: "action list \<Rightarrow> world \<Rightarrow> exn option \<times> world" where
  "perform [] w = (None, w)"
| "perform (Unregister h # as) w = perform as (unregister h w)"
| "perform (Register h # as) w = perform as (onMessage h w)"
| "perform (Raise # as) w = (Some HandlerError, w)"

definition invoke :: "env \<Rightarrow> json \<Rightarrow> nat \<Rightarrow> world \<Rightarrow> exn option \<times> world" where
  "invoke E m h w = perform (handler_body E h m) (w\<lparr>calls := calls w @ [Invoked h m]\<rparr>)"

text \<open>
  \<^verbatim>\<open>this.messageHandlers.forEach(handler => handler(message))\<close>. \<^verbatim>\<open>forEach\<close> walks
  the array object that the field held when it was called, up to the length it had then.
  \<open>unregister\<close> assigns a new array to the field (\<^verbatim>\<open>filter\<close>) and \<open>onMessage\<close>
  appends (\<^verbatim>\<open>push\<close>), so the elements walked are those of the field at the start. A
  handler that throws ends the walk.
\<close>

fun forEach :: "env \<Rightarrow> json \<Rightarrow> nat list \<Rightarrow> world \<Rightarrow> exn option \<times> world" where
  "forEach E m [] w = (None, w)"
| "forEach E m (h # hs) w =
     (case invoke E m h w of
        (Some e, w') \<Rightarrow> (Some e, w')
      | (None, w') \<Rightarrow> forEach E m hs w')"

definition notifyHandlers :: "env \<Rightarrow> json \<Rightarrow> world \<Rightarrow> exn option \<times> world" where
  "notifyHandlers E m w = forEach E m (messageHandlers w) w"

subsection \<open>The handlers connect attaches to a transport\<close>

definition attemptReconnect :: "world \<Rightarrow> world" where
  "attemptReconnect w =
     (if reconnectAttempts w < maxReconnectAttempts
      then (let w1 = w\<lparr>reconnectAttempts := Suc (reconnectAttempts w)\<rparr>;
                delay = reconnectDelay * reconnectAttempts w1;
                w2 = say Info ''Attempting to reconnect in'' w1
            in w2\<lparr>timers := timers w2 @ [delay]\<rparr>)
      else say Error ''Max reconnection attempts reached'' w)"

definition onopen :: "nat \<Rightarrow> world \<Rightarrow> world" where
  "onopen t w =
     (let w1 = say Info ''WebSocket connected successfully'' w;
          w2 = w1\<lparr>reconnectAttempts := 0, connectionPromise := None\<rparr>
      in settle Fulfilled (resolver w2 t) w2)"

text \<open>
  The \<^verbatim>\<open>try\<close> block of \<^verbatim>\<open>onmessage\<close> holds the parse and the dispatch; the
  \<^verbatim>\<open>catch\<close> block logs. The first component of the result is the exception that
  leaves the handler, if any.
\<close>

definition onmessage_try :: "env \<Rightarrow> string \<Rightarrow> world \<Rightarrow> exn option \<times> world" where
  "onmessage_try E d w =
     (case JSON_parse E d of
        None \<Rightarrow> (Some SyntaxError, w)
      | Some m \<Rightarrow> notifyHandlers E m (say Info ''Received message:'' w))"

definition onmessage :: "env \<Rightarrow> string \<Rightarrow> world \<Rightarrow> exn option \<times> world" where
  "onmessage E d w =
     (case onmessage_try E d w of
        (Some e, w') \<Rightarrow> (None, say Error ''Error parsing WebSocket message:'' w')
      | (None, w') \<Rightarrow> (None, w'))"

definition onclose :: "world \<Rightarrow> world" where
  "onclose w =
     attemptReconnect
       ((say Info ''WebSocket disconnected:'' w)\<lparr>connectionPromise := None, socket := None\<rparr>)"

definition onerror :: "nat \<Rightarrow> world \<Rightarrow> world" where
  "onerror t w =
     (let w1 = (say Error ''WebSocket error:'' w)\<lparr>connectionPromise := None, socket := None\<rparr>
      in settle Rejected (resolver w1 t) w1)"

subsection \<open>disconnect\<close>

text \<open>
  \<^verbatim>\<open>socket.close()\<close> starts the closing handshake: a transport that is connecting or
  open becomes \<^verbatim>\<open>CLOSING\<close>; its close event comes later, as an event of its own.
\<close>

definition ws_close :: "nat \<Rightarrow> world \<Rightarrow> world" where
  "ws_close t w =
     (if ready w t = CONNECTING \<or> ready w t = OPEN
      then w\<lparr>ready := (ready w)(t := CLOSING)\<rparr> else w)"

definition disconnect :: "world \<Rightarrow> world" where
  "disconnect w =
     (let w1 = (case socket w of Some t \<Rightarrow> (ws_close t w)\<lparr>socket := None\<rparr> | None \<Rightarrow> w)
      in w1\<lparr>messageHandlers := [], connectionPromise := None\<rparr>)"

subsection \<open>The event loop\<close>

text \<open>
  The callback \<^verbatim>\<open>attemptReconnect\<close> hands to \<^verbatim>\<open>setTimeout\<close> calls \<open>connect\<close>; its
  \<^verbatim>\<open>catch\<close> only logs, once the promise is rejected. Any pending timer may be the next
  to fire.
\<close>

definition timer_fire :: "env \<Rightarrow> nat \<Rightarrow> world \<Rightarrow> world" where
  "timer_fire E i w =
     (if i < length (timers w)
      then snd (connect E (w\<lparr>timers := take i (timers w) @ drop (Suc i) (timers w)\<rparr>))
      else w)"

text \<open>
  What can happen next: a call of a public method, or the platform delivering an event of
  a transport that exists or firing a timer. The platform sets the ready state before it
  calls the handler: \<^verbatim>\<open>OPEN\<close> for the open event, \<^verbatim>\<open>CLOSED\<close> for the close event
  and for the error event of a failed connection.

  \<open>step\<close> accepts the events in any order. The platform itself keeps an order: a
  transport opens at most once and before it closes; the error event of a failed
  connection is followed by the close event of the same transport; and after
  \<^verbatim>\<open>close()\<close> the close event follows. The traces of the examples keep that order.
\<close>

datatype event =
    Call_connect
  | Call_disconnect
  | Call_send json
  | Call_onMessage nat
  | Call_unregister nat
  | Call_setUrl string
  | Ev_open nat
  | Ev_message nat string
  | Ev_error nat
  | Ev_close nat
  | Timer nat

fun step :: "env \<Rightarrow> world \<Rightarrow> event \<Rightarrow> world" where
  "step E w Call_connect = snd (connect E w)"
| "step E w Call_disconnect = disconnect w"
| "step E w (Call_send m) = send E m w"
| "step E w (Call_onMessage h) = onMessage h w"
| "step E w (Call_unregister h) = unregister h w"
| "step E w (Call_setUrl u) = setUrl u w"
| "step E w (Ev_open t) =
     (if t < created w then onopen t (w\<lparr>ready := (ready w)(t := OPEN)\<rparr>) else w)"
| "step E w (Ev_message t d) =
     (if t < created w then snd (onmessage E d w) else w)"
| "step E w (Ev_error t) =
     (if t < created w then onerror t (w\<lparr>ready := (ready w)(t := CLOSED)\<rparr>) else w)"
| "step E w (Ev_close t) =
     (if t < created w then onclose (w\<lparr>ready := (ready w)(t := CLOSED)\<rparr>) else w)"
| "step E w (Timer i) = timer_fire E i w"

definition run :: "env \<Rightarrow> event list \<Rightarrow> world \<Rightarrow> world" where
  "run E evs w = foldl (step E) w evs"

text \<open>\<open>n\<close> calls of \<open>connect\<close> one after the other, with the promises they return.\<close>

fun connects :: "env \<Rightarrow> nat \<Rightarrow> world \<Rightarrow> nat list \<times> world" where
  "connects E 0 w = ([], w)"
| "connects E (Suc n) w =
     (let (p, w1) = connect E w; (ps, w2) = connects E n w1 in (p # ps, w2))"

text \<open>A platform for the examples: every URL is accepted, handlers do nothing.\<close>

definition env0 :: env where
  "env0 = \<lparr> ctor_ok = (\<lambda>_. True), JSON_parse = (\<lambda>_. None), JSON_stringify = (\<lambda>_. []),
            handler_body = (\<lambda>_ _. []) \<rparr>"

section \<open>The Editor component\<close>

text \<open>
  The state of \<^verbatim>\<open>Editor\<close> that its two callbacks read and write: the React states
  \<^verbatim>\<open>content\<close> and \<^verbatim>\<open>usersCount\<close>, the ref \<^verbatim>\<open>isRemoteUpdate\<close>, and the
  delays of its pending \<^verbatim>\<open>setTimeout\<close> callbacks, each of which clears the ref.
\<close>

record editor =
  content :: json
  usersCount :: json
  isRemoteUpdate :: bool
  flag_timers :: "nat list"
  ed_console :: "(level \<times> string) list"

definition editor0 :: editor where
  "editor0 = \<lparr> content = JStr [], usersCount = JNum 1, isRemoteUpdate = False,
               flag_timers = [], ed_console = [] \<rparr>"

definition ed_say :: "level \<Rightarrow> string \<Rightarrow> editor \<Rightarrow> editor" where
  "ed_say l s ed = ed\<lparr>ed_console := ed_console ed @ [(l, s)]\<rparr>"

text \<open>
  \<^verbatim>\<open>handleWebSocketMessage\<close>: a \<^verbatim>\<open>switch\<close> on \<^verbatim>\<open>message.type\<close>, compared with
  \<^verbatim>\<open>===\<close>. The ref is set before \<^verbatim>\<open>message.payload.content\<close> is read.
\<close>

definition handleWebSocketMessage :: "json \<Rightarrow> editor \<Rightarrow> exn option \<times> editor" where
  "handleWebSocketMessage m ed =
     (case get_prop m ''type'' of
        Inl e \<Rightarrow> (Some e, ed)
      | Inr ty \<Rightarrow>
          if ty = JStr ''content_update''
          then (let ed1 = ed\<lparr>isRemoteUpdate := True\<rparr>
                in case get_prop m ''payload'' of
                     Inl e \<Rightarrow> (Some e, ed1)
                   | Inr pl \<Rightarrow>
                       (case get_prop pl ''content'' of
                          Inl e \<Rightarrow> (Some e, ed1)
                        | Inr c \<Rightarrow>
                            (None, ed1\<lparr>content := c, flag_timers := flag_timers ed1 @ [100]\<rparr>)))
          else if ty = JStr ''user_count_update''
          then (case get_prop m ''payload'' of
                  Inl e \<Rightarrow> (Some e, ed)
                | Inr pl \<Rightarrow>
                    (case get_prop pl ''count'' of
                       Inl e \<Rightarrow> (Some e, ed)
                     | Inr c \<Rightarrow> (None, ed\<lparr>usersCount := c\<rparr>)))
          else if ty = JStr ''user_joined''
          then (None, ed_say Info ''User joined:'' ed)
          else (None, ed_say Info ''Received message:'' ed))"

text \<open>The callback of the 100 ms timer: \<^verbatim>\<open>isRemoteUpdate.current = false\<close>.\<close>

definition flag_timer_fire :: "nat \<Rightarrow> editor \<Rightarrow> editor" where
  "flag_timer_fire i ed =
     (if i < length (flag_timers ed)
      then ed\<lparr>isRemoteUpdate := False,
              flag_timers := take i (flag_timers ed) @ drop (Suc i) (flag_timers ed)\<rparr>
      else ed)"

definition content_update_msg :: "string \<Rightarrow> json" where
  "content_update_msg s =
     JObj [(''type'', JStr ''content_update''), (''payload'', JObj [(''content'', JStr s)])]"

text \<open>\<^verbatim>\<open>handleContentChange\<close>, called with \<^verbatim>\<open>e.target.value\<close>.\<close>

definition handleContentChange :: "env \<Rightarrow> string \<Rightarrow> editor \<times> world \<Rightarrow> editor \<times> world" where
  "handleContentChange E s = (\<lambda>(ed, w).
     (ed\<lparr>content := JStr s\<rparr>,
      if \<not> isRemoteUpdate ed \<and> isConnected w then send E (content_update_msg s) w else w))"

section \<open>Notions the properties are stated with\<close>

text \<open>The handlers called, in the order of the calls.\<close>

fun invoked :: "obs list \<Rightarrow> nat list" where
  "invoked [] = []"
| "invoked (Invoked h m # r) = h # invoked r"
| "invoked (Removed h # r) = invoked r"

text \<open>
  No call of a handler follows the removal of that handler in a sequence of
  observations.
\<close>

fun silent_after_removal :: "obs list \<Rightarrow> bool" where
  "silent_after_removal [] = True"
| "silent_after_removal (Removed h # r) = (h \<notin> set (invoked r) \<and> silent_after_removal r)"
| "silent_after_removal (Invoked h m # r) = silent_after_removal r"

text \<open>
  The envelope of the interface \<^verbatim>\<open>WebSocketMessage\<close>: an object whose \<^verbatim>\<open>type\<close> is
  one of the five kinds (the payload is \<^verbatim>\<open>any\<close>).
\<close>

definition kinds :: "string list" where
  "kinds = [''content_update'', ''cursor_position'', ''user_joined'', ''user_left'',
            ''user_count_update'']"

fun is_envelope :: "json \<Rightarrow> bool" where
  "is_envelope (JObj fs) =
     (case map_of fs ''type'' of Some (JStr k) \<Rightarrow> k \<in> set kinds | _ \<Rightarrow> False)"
| "is_envelope v = False"

text \<open>
  What one action of a handler makes of the list of handlers; whether a handler throws on
  a message; the handlers a dispatch over the list \<open>hs\<close> calls (those before the first
  one that throws, and that one); and the actions the called handlers perform before
  they throw or return.
\<close>

fun apply_action :: "nat list \<Rightarrow> action \<Rightarrow> nat list" where
  "apply_action hs (Unregister h) = filter (\<lambda>x. x \<noteq> h) hs"
| "apply_action hs (Register h) = hs @ [h]"
| "apply_action hs Raise = hs"

definition throws :: "env \<Rightarrow> json \<Rightarrow> nat \<Rightarrow> bool" where
  "throws E m h = (Raise \<in> set (handler_body E h m))"

definition pass :: "env \<Rightarrow> json \<Rightarrow> nat list \<Rightarrow> nat list" where
  "pass E m hs = take (Suc (length (takeWhile (\<lambda>h. \<not> throws E m h) hs))) hs"

definition performed :: "env \<Rightarrow> json \<Rightarrow> nat list \<Rightarrow> action list" where
  "performed E m hs = concat (map (\<lambda>h. takeWhile (\<lambda>a. a \<noteq> Raise) (handler_body E h m)) hs)"

text \<open>
  The events that end an attempt or start another transport's turn: between two calls of
  \<open>connect\<close> they break the sharing of one attempt. \<open>outcomes\<close> are the promises the
  calls of \<open>connect\<close> in a trace return, in order. \<open>connecting t p\<close> holds while the
  attempt on transport \<open>t\<close> with promise \<open>p\<close> is in flight.
\<close>

fun sharing_safe :: "event \<Rightarrow> bool" where
  "sharing_safe (Ev_open t) = False"
| "sharing_safe (Ev_error t) = False"
| "sharing_safe (Ev_close t) = False"
| "sharing_safe Call_disconnect = False"
| "sharing_safe ev = True"

fun outcomes :: "env \<Rightarrow> event list \<Rightarrow> world \<Rightarrow> nat list" where
  "outcomes E [] w = []"
| "outcomes E (Call_connect # evs) w = fst (connect E w) # outcomes E evs (step E w Call_connect)"
| "outcomes E (ev # evs) w = outcomes E evs (step E w ev)"

definition connecting :: "nat \<Rightarrow> nat \<Rightarrow> world \<Rightarrow> bool" where
  "connecting t p w =
     (socket w = Some t \<and> ready w t = CONNECTING \<and> connectionPromise w = Some p
      \<and> created w = Suc t \<and> promises w p = Pending \<and> resolver w t = p)"

text \<open>
  The delays scheduled over \<open>k\<close> rounds of a reconnection that keeps failing: the newest
  transport closes, the timer scheduled for it (if any) fires and calls \<open>connect\<close>, and
  the transport \<open>connect\<close> creates reports an error (its close event opens the next
  round).
\<close>

fun retry_delays :: "env \<Rightarrow> nat \<Rightarrow> world \<Rightarrow> nat list" where
  "retry_delays E 0 w = []"
| "retry_delays E (Suc k) w =
     (let w1 = step E w (Ev_close (created w - 1));
          w2 = run E [Timer 0, Ev_error (created w)] w1
      in timers w1 @ retry_delays E k w2)"

text \<open>
  What happens to the Editor: the service calls \<open>handleWebSocketMessage\<close> with a parsed
  message (an exception of the handler is caught by the service), the text area reports
  a change, or one of the pending 100 ms timers fires.
\<close>

datatype ed_event = Remote json | Change string | Flag_timer nat

fun ed_step :: "env \<Rightarrow> editor \<times> world \<Rightarrow> ed_event \<Rightarrow> editor \<times> world" where
  "ed_step E (ed, w) (Remote m) = (snd (handleWebSocketMessage m ed), w)"
| "ed_step E (ed, w) (Change s) = handleContentChange E s (ed, w)"
| "ed_step E (ed, w) (Flag_timer i) = (flag_timer_fire i ed, w)"

definition ed_run :: "env \<Rightarrow> ed_event list \<Rightarrow> editor \<times> world \<Rightarrow> editor \<times> world" where
  "ed_run E evs x = foldl (ed_step E) x evs"

definition null_update :: json where
  "null_update = JObj [(''type'', JStr ''content_update''), (''payload'', JNull)]"

text \<open>
  Platforms and states for the examples. \<open>env_strict\<close> accepts the default URL only;
  \<open>env_json\<close> parses two texts and throws on the others; the handler 0 of
  \<open>env_remove\<close> removes the handler 1; every handler of \<open>env_self\<close> removes itself;
  the handler 1 of \<open>env_raise\<close> removes the handler 0 and throws; the handler 7 of
  \<open>env_picky\<close> throws on what is not an envelope. \<open>w_exhausted\<close> is reached by an open
  connection that drops and five reconnections that fail.
\<close>

definition env_remove :: env where
  "env_remove = env0\<lparr>handler_body := (\<lambda>h m. if h = 0 then [Unregister 1] else [])\<rparr>"

definition w_open :: world where
  "w_open = run env0 [Call_connect, Ev_open 0] init"


definition env_strict :: env where
  "env_strict = env0\<lparr>ctor_ok := (\<lambda>u. u = ''ws://localhost:8080/ws'')\<rparr>"

definition w_two :: world where
  "w_two = onMessage 1 (onMessage 0 init)"

definition left_text :: string where
  "left_text = ''{\"type\":\"user_left\",\"payload\":{}}''"

definition left_msg :: json where
  "left_msg = JObj [(''type'', JStr ''user_left''), (''payload'', JObj [])]"

definition env_json :: env where
  "env_json = env0\<lparr>JSON_parse := (\<lambda>d. if d = ''42'' then Some (JNum 42)
      else if d = left_text then Some left_msg else None)\<rparr>"

definition w_seven :: world where
  "w_seven = onMessage 7 init"

definition env_self :: env where
  "env_self = env0\<lparr>handler_body := (\<lambda>h m. [Unregister h])\<rparr>"

definition w_twice :: world where
  "w_twice = onMessage 0 (onMessage 0 init)"

definition w_again :: world where
  "w_again = run env0 [Call_connect, Ev_open 0, Call_disconnect] init"

definition w_exhausted :: world where
  "w_exhausted = run env0 [Call_connect, Ev_open 0,
      Ev_close 0, Timer 0, Ev_error 1, Ev_close 1, Timer 0, Ev_error 2,
      Ev_close 2, Timer 0, Ev_error 3, Ev_close 3, Timer 0, Ev_error 4,
      Ev_close 4, Timer 0, Ev_error 5] init"

definition env_raise :: env where
  "env_raise = env0\<lparr>handler_body := (\<lambda>h m. if h = 1 then [Unregister 0, Raise] else [])\<rparr>"

definition w_three :: world where
  "w_three = onMessage 2 (onMessage 1 (onMessage 0 init))"

definition env_picky :: env where
  "env_picky = env_json\<lparr>handler_body := (\<lambda>h m. if h = 7 \<and> \<not> is_envelope m then [Raise] else [])\<rparr>"

definition w_pair :: world where
  "w_pair = onMessage 8 (onMessage 7 init)"

section \<open>Evaluation and frame lemmas\<close>

lemma run_simps: "run E [] w = w" "run E (e # es) w = run E es (step E w e)"
  by (simp_all add: run_def)

lemmas eval_defs = connect_def isConnected_def new_promise_def say_def settle_def onopen_def
  onclose_def onerror_def attemptReconnect_def maxReconnectAttempts_def reconnectDelay_def
  disconnect_def ws_close_def timer_fire_def init_def env0_def Let_def

lemma w_open_fields:
  "timers w_open = []" "created w_open = 1" "reconnectAttempts w_open = 0"
  "url w_open = ''ws://localhost:8080/ws''" "socket w_open = Some 0"
  by (simp_all add: w_open_def run_simps eval_defs)


lemma perform_frame:
  "timers (snd (perform as w)) = timers w \<and> created (snd (perform as w)) = created w"
  by (induction as w rule: perform.induct) (simp_all add: unregister_def onMessage_def)

lemma forEach_frame:
  "timers (snd (forEach E m hs w)) = timers w \<and> created (snd (forEach E m hs w)) = created w"
proof (induction hs arbitrary: w)
  case Nil
  then show ?case by simp
next
  case (Cons h hs)
  obtain r w' where inv: "invoke E m h w = (r, w')" by (cases "invoke E m h w")
  with perform_frame [of "handler_body E h m" "w\<lparr>calls := calls w @ [Invoked h m]\<rparr>"]
  have fr: "timers w' = timers w \<and> created w' = created w" by (simp add: invoke_def)
  show ?case
  proof (cases r)
    case None
    with inv fr Cons.IH [of w'] show ?thesis by simp
  next
    case (Some e)
    with inv fr show ?thesis by simp
  qed
qed

lemma onmessage_frame:
  "timers (snd (onmessage E d w)) = timers w \<and> created (snd (onmessage E d w)) = created w"
proof (cases "JSON_parse E d")
  case None
  then show ?thesis by (simp add: onmessage_def onmessage_try_def say_def)
next
  case (Some m)
  let ?w1 = "say Info ''Received message:'' w"
  obtain r w' where fe: "forEach E m (messageHandlers ?w1) ?w1 = (r, w')"
    by (cases "forEach E m (messageHandlers ?w1) ?w1")
  with forEach_frame [of E m "messageHandlers ?w1" ?w1]
  have "timers w' = timers w \<and> created w' = created w" by (simp add: say_def)
  with Some fe show ?thesis
    by (cases r) (simp_all add: onmessage_def onmessage_try_def notifyHandlers_def say_def)
qed

lemma connect_frame: "timers (snd (connect E w)) = timers w"
  by (simp add: connect_def new_promise_def say_def settle_def Let_def split: option.split)

lemma connect_idle:
  assumes "\<not> isConnected w" "connectionPromise w = None" "ctor_ok E (url w)"
  shows "connect E w =
     (npromises w,
      w\<lparr>socket := Some (created w),
        connectionPromise := Some (npromises w),
        ready := (ready w)(created w := CONNECTING),
        resolver := (resolver w)(created w := npromises w),
        created := Suc (created w),
        promises := (promises w)(npromises w := Pending),
        npromises := Suc (npromises w),
        console := console w @ [(Info, ''Attempting to connect to:'')]\<rparr>)"
  using assms by (simp add: connect_def new_promise_def say_def Let_def)

lemma connect_pending:
  assumes "\<not> isConnected w" "connectionPromise w = Some p"
  shows "connect E w = (p, say Info ''WebSocket connection in progress'' w)"
  using assms by (simp add: connect_def)

lemma step_timers_grow:
  assumes "length (timers w) < length (timers (step E w ev))"
  shows "\<exists>t. ev = Ev_close t"
proof (cases ev)
  case Call_connect
  with assms connect_frame [of E w] show ?thesis by simp
next
  case (Ev_message t d)
  with assms onmessage_frame [of E d w] show ?thesis by (simp split: if_splits)
next
  case (Timer i)
  with assms connect_frame [of E "w\<lparr>timers := take i (timers w) @ drop (Suc i) (timers w)\<rparr>"]
  show ?thesis by (simp add: timer_fire_def split: if_splits)
qed (use assms in \<open>simp_all add: disconnect_def ws_close_def send_def say_def onMessage_def
      unregister_def setUrl_def onopen_def onerror_def settle_def Let_def
      split: if_splits option.splits\<close>)




lemma perform_shape:
  "\<exists>hs cs. snd (perform as w) = w\<lparr>messageHandlers := hs, calls := cs\<rparr>"
proof (induction as w rule: perform.induct)
  case (1 w)
  have "w = w\<lparr>messageHandlers := messageHandlers w, calls := calls w\<rparr>" by simp
  then show ?case by (metis perform.simps(1) snd_conv)
next
  case (2 h as w)
  then obtain hs cs where "snd (perform as (unregister h w))
      = (unregister h w)\<lparr>messageHandlers := hs, calls := cs\<rparr>" by blast
  then have "snd (perform (Unregister h # as) w) = w\<lparr>messageHandlers := hs, calls := cs\<rparr>"
    by (simp add: unregister_def)
  then show ?case by blast
next
  case (3 h as w)
  then obtain hs cs where "snd (perform as (onMessage h w))
      = (onMessage h w)\<lparr>messageHandlers := hs, calls := cs\<rparr>" by blast
  then have "snd (perform (Register h # as) w) = w\<lparr>messageHandlers := hs, calls := cs\<rparr>"
    by (simp add: onMessage_def)
  then show ?case by blast
next
  case (4 as w)
  have "w = w\<lparr>messageHandlers := messageHandlers w, calls := calls w\<rparr>" by simp
  then show ?case by (metis perform.simps(4) snd_conv)
qed

lemma forEach_shape:
  "\<exists>hs cs. snd (forEach E m xs w) = w\<lparr>messageHandlers := hs, calls := cs\<rparr>"
proof (induction xs arbitrary: w)
  case Nil
  have "w = w\<lparr>messageHandlers := messageHandlers w, calls := calls w\<rparr>" by simp
  then show ?case by (metis forEach.simps(1) snd_conv)
next
  case (Cons h xs)
  obtain r w' where inv: "invoke E m h w = (r, w')" by (cases "invoke E m h w")
  from perform_shape [of "handler_body E h m" "w\<lparr>calls := calls w @ [Invoked h m]\<rparr>"] inv
  obtain hs cs where w': "w' = w\<lparr>messageHandlers := hs, calls := cs\<rparr>"
    by (auto simp: invoke_def)
  show ?case
  proof (cases r)
    case None
    from Cons.IH [of w'] obtain hs' cs' where
      "snd (forEach E m xs w') = w'\<lparr>messageHandlers := hs', calls := cs'\<rparr>" by blast
    with inv None w' have "snd (forEach E m (h # xs) w) = w\<lparr>messageHandlers := hs', calls := cs'\<rparr>"
      by simp
    then show ?thesis by blast
  next
    case (Some e)
    with inv w' have "snd (forEach E m (h # xs) w) = w\<lparr>messageHandlers := hs, calls := cs\<rparr>"
      by simp
    then show ?thesis by blast
  qed
qed

lemma onmessage_shape:
  "\<exists>hs cs co. snd (onmessage E d w) = w\<lparr>messageHandlers := hs, calls := cs, console := co\<rparr>"
proof (cases "JSON_parse E d")
  case None
  then have "snd (onmessage E d w) = w\<lparr>messageHandlers := messageHandlers w, calls := calls w,
      console := console w @ [(Error, ''Error parsing WebSocket message:'')]\<rparr>"
    by (simp add: onmessage_def onmessage_try_def say_def)
  then show ?thesis by blast
next
  case (Some m)
  let ?w1 = "say Info ''Received message:'' w"
  obtain r w' where fe: "forEach E m (messageHandlers ?w1) ?w1 = (r, w')"
    by (cases "forEach E m (messageHandlers ?w1) ?w1")
  from forEach_shape [of E m "messageHandlers ?w1" ?w1] fe
  obtain hs cs where w': "w' = ?w1\<lparr>messageHandlers := hs, calls := cs\<rparr>" by auto
  show ?thesis
  proof (cases r)
    case None
    with Some fe w' have "snd (onmessage E d w) = w\<lparr>messageHandlers := hs, calls := cs,
        console := console w @ [(Info, ''Received message:'')]\<rparr>"
      by (simp add: onmessage_def onmessage_try_def notifyHandlers_def say_def)
    then show ?thesis by blast
  next
    case (Some e)
    with \<open>JSON_parse E d = Some m\<close> fe w'
    have "snd (onmessage E d w) = w\<lparr>messageHandlers := hs, calls := cs,
        console := console w @ [(Info, ''Received message:''),
          (Error, ''Error parsing WebSocket message:'')]\<rparr>"
      by (simp add: onmessage_def onmessage_try_def notifyHandlers_def say_def)
    then show ?thesis by blast
  qed
qed

section \<open>Reconnection\<close>

lemma onclose_lt:
  "reconnectAttempts w < 5 \<Longrightarrow>
     reconnectAttempts (onclose w) = Suc (reconnectAttempts w)
     \<and> timers (onclose w) = timers w @ [1000 * Suc (reconnectAttempts w)]"
  by (simp add: onclose_def attemptReconnect_def maxReconnectAttempts_def reconnectDelay_def
      say_def Let_def)

lemma close_event_lt:
  assumes "t < created w" "reconnectAttempts w < 5"
  shows "step E w (Ev_close t) =
    w\<lparr>ready := (ready w)(t := CLOSED), socket := None, connectionPromise := None,
      reconnectAttempts := Suc (reconnectAttempts w),
      timers := timers w @ [1000 * Suc (reconnectAttempts w)],
      console := console w @ [(Info, ''WebSocket disconnected:''),
        (Info, ''Attempting to reconnect in'')]\<rparr>"
  using assms
  by (simp add: onclose_def attemptReconnect_def maxReconnectAttempts_def reconnectDelay_def
      say_def Let_def)

lemma close_event_ge:
  assumes "t < created w" "5 \<le> reconnectAttempts w"
  shows "step E w (Ev_close t) =
    w\<lparr>ready := (ready w)(t := CLOSED), socket := None, connectionPromise := None,
      console := console w @ [(Info, ''WebSocket disconnected:''),
        (Error, ''Max reconnection attempts reached'')]\<rparr>"
  using assms
  by (simp add: onclose_def attemptReconnect_def maxReconnectAttempts_def say_def)

lemma close_then_timer:
  assumes "t < created w" "reconnectAttempts w < 5" "ctor_ok E (url w)"
  shows "created (run E [Ev_close t, Timer (length (timers w))] w) = Suc (created w)
    \<and> socket (run E [Ev_close t, Timer (length (timers w))] w) = Some (created w)
    \<and> ready (run E [Ev_close t, Timer (length (timers w))] w) (created w) = CONNECTING
    \<and> timers (run E [Ev_close t, Timer (length (timers w))] w) = timers w
    \<and> reconnectAttempts (run E [Ev_close t, Timer (length (timers w))] w)
        = Suc (reconnectAttempts w)
    \<and> url (run E [Ev_close t, Timer (length (timers w))] w) = url w"
proof -
  let ?w1 = "step E w (Ev_close t)"
  note c = close_event_lt [OF assms(1,2), of E]
  let ?w2 = "?w1\<lparr>timers := take (length (timers w)) (timers ?w1)
      @ drop (Suc (length (timers w))) (timers ?w1)\<rparr>"
  from c assms(3) have "\<not> isConnected ?w2" "connectionPromise ?w2 = None" "ctor_ok E (url ?w2)"
    by (simp_all add: isConnected_def)
  note k = connect_idle [OF this]
  have t: "step E ?w1 (Timer (length (timers w))) = snd (connect E ?w2)"
    using c by (simp add: timer_fire_def)
  show ?thesis unfolding run_simps t k using c by simp
qed

lemma retry_round:
  assumes "timers w = []" "0 < created w" "ctor_ok E (url w)"
  shows "timers (run E [Timer 0, Ev_error (created w)] (step E w (Ev_close (created w - 1)))) = []
    \<and> 0 < created (run E [Timer 0, Ev_error (created w)] (step E w (Ev_close (created w - 1))))
    \<and> url (run E [Timer 0, Ev_error (created w)] (step E w (Ev_close (created w - 1)))) = url w
    \<and> reconnectAttempts (run E [Timer 0, Ev_error (created w)]
          (step E w (Ev_close (created w - 1))))
        = (if reconnectAttempts w < 5 then Suc (reconnectAttempts w) else reconnectAttempts w)
    \<and> timers (step E w (Ev_close (created w - 1)))
        = (if reconnectAttempts w < 5 then [1000 * Suc (reconnectAttempts w)] else [])"
proof (cases "reconnectAttempts w < 5")
  case True
  from assms(2) have lt: "created w - 1 < created w" by simp
  note c = close_event_lt [OF lt True, of E]
  from close_then_timer [OF lt True assms(3)] assms(1)
  have x: "created (run E [Ev_close (created w - 1), Timer 0] w) = Suc (created w)"
    "timers (run E [Ev_close (created w - 1), Timer 0] w) = []"
    "reconnectAttempts (run E [Ev_close (created w - 1), Timer 0] w) = Suc (reconnectAttempts w)"
    "url (run E [Ev_close (created w - 1), Timer 0] w) = url w"
    by simp_all
  let ?w2 = "step E (step E w (Ev_close (created w - 1))) (Timer 0)"
  from x have y: "created ?w2 = Suc (created w)" "timers ?w2 = []"
    "reconnectAttempts ?w2 = Suc (reconnectAttempts w)" "url ?w2 = url w"
    by (simp_all add: run_simps)
  have "run E [Timer 0, Ev_error (created w)] (step E w (Ev_close (created w - 1)))
      = step E ?w2 (Ev_error (created w))"
    by (simp add: run_simps)
  with y c True assms(1) show ?thesis
    by (simp add: onerror_def settle_def say_def Let_def)
next
  case False
  from assms(2) have lt: "created w - 1 < created w" by simp
  from False have ge: "5 \<le> reconnectAttempts w" by simp
  note c = close_event_ge [OF lt ge, of E]
  from c assms False show ?thesis
    by (simp add: run_simps timer_fire_def)
qed

lemma retry_delays_eq:
  assumes "timers w = []" "0 < created w" "ctor_ok E (url w)"
  shows "retry_delays E k w
    = map (\<lambda>i. 1000 * i) [Suc (reconnectAttempts w) ..< Suc (min (reconnectAttempts w + k) 5)]"
  using assms
proof (induction k arbitrary: w)
  case 0
  then show ?case by simp
next
  case (Suc k)
  let ?w1 = "step E w (Ev_close (created w - 1))"
  let ?w2 = "run E [Timer 0, Ev_error (created w)] ?w1"
  note r = retry_round [OF Suc.prems]
  from r Suc.prems have p: "timers ?w2 = []" "0 < created ?w2" "ctor_ok E (url ?w2)"
    by simp_all
  note ih = Suc.IH [OF p]
  have u: "retry_delays E (Suc k) w = timers ?w1 @ retry_delays E k ?w2"
    by (simp add: Let_def del: step.simps)
  let ?f = "\<lambda>i::nat. 1000 * i"
  show ?case
  proof (cases "reconnectAttempts w < 5")
    case True
    with r have a: "reconnectAttempts ?w2 = Suc (reconnectAttempts w)"
      "timers ?w1 = [1000 * Suc (reconnectAttempts w)]" by simp_all
    from True have "Suc (reconnectAttempts w) < Suc (min (reconnectAttempts w + Suc k) 5)"
      by simp
    then have e: "[Suc (reconnectAttempts w) ..< Suc (min (reconnectAttempts w + Suc k) 5)]
      = Suc (reconnectAttempts w)
          # [Suc (Suc (reconnectAttempts w)) ..< Suc (min (reconnectAttempts w + Suc k) 5)]"
      by (rule upt_conv_Cons)
    have m: "Suc (reconnectAttempts w) + k = reconnectAttempts w + Suc k" by simp
    have "retry_delays E (Suc k) w = timers ?w1 @ retry_delays E k ?w2" by (rule u)
    also have "\<dots> = [1000 * Suc (reconnectAttempts w)]
        @ map ?f [Suc (Suc (reconnectAttempts w)) ..< Suc (min (reconnectAttempts w + Suc k) 5)]"
      by (simp only: ih a m)
    also have "\<dots> = map ?f [Suc (reconnectAttempts w) ..< Suc (min (reconnectAttempts w + Suc k) 5)]"
      by (simp only: e list.map append_Cons append_Nil)
    finally show ?thesis .
  next
    case False
    with r have a: "reconnectAttempts ?w2 = reconnectAttempts w" "timers ?w1 = []" by simp_all
    from False have l: "Suc (min (reconnectAttempts w + Suc k) 5) \<le> Suc (reconnectAttempts w)"
      "Suc (min (reconnectAttempts w + k) 5) \<le> Suc (reconnectAttempts w)"
      by simp_all
    have e: "[Suc (reconnectAttempts w) ..< Suc (min (reconnectAttempts w + Suc k) 5)] = []"
      "[Suc (reconnectAttempts w) ..< Suc (min (reconnectAttempts w + k) 5)] = []"
      by (rule upt_conv_Nil [OF l(1)], rule upt_conv_Nil [OF l(2)])
    have "retry_delays E (Suc k) w = timers ?w1 @ retry_delays E k ?w2" by (rule u)
    also have "\<dots> = map ?f [Suc (reconnectAttempts w) ..< Suc (min (reconnectAttempts w + k) 5)]"
      by (simp only: ih a append_Nil)
    also have "\<dots> = map ?f [Suc (reconnectAttempts w) ..< Suc (min (reconnectAttempts w + Suc k) 5)]"
      by (simp only: e)
    finally show ?thesis .
  qed
qed

lemma connect_attempts: "reconnectAttempts (snd (connect E w)) = reconnectAttempts w"
  by (simp add: connect_def new_promise_def say_def settle_def Let_def split: option.split)

lemma step_attempts:
  assumes "reconnectAttempts (step E w ev) \<noteq> reconnectAttempts w"
  shows "(\<exists>t. ev = Ev_close t) \<or> (\<exists>t. ev = Ev_open t)"
proof (cases ev)
  case Call_connect
  with assms connect_attempts [of E w] show ?thesis by simp
next
  case (Ev_message t d)
  from onmessage_shape [of E d w] obtain hs cs co where
    "snd (onmessage E d w) = w\<lparr>messageHandlers := hs, calls := cs, console := co\<rparr>" by blast
  with assms Ev_message show ?thesis by (simp split: if_splits)
next
  case (Timer i)
  with assms connect_attempts [of E "w\<lparr>timers := take i (timers w) @ drop (Suc i) (timers w)\<rparr>"]
  show ?thesis by (simp add: timer_fire_def split: if_splits)
qed (use assms in \<open>simp_all add: disconnect_def ws_close_def send_def say_def onMessage_def
      unregister_def setUrl_def onerror_def settle_def Let_def
      split: if_splits option.splits\<close>)

lemma step_attempts_le:
  assumes "reconnectAttempts w \<le> 5"
  shows "reconnectAttempts (step E w ev) \<le> 5"
proof (cases "reconnectAttempts (step E w ev) = reconnectAttempts w")
  case True
  with assms show ?thesis by simp
next
  case False
  from step_attempts [OF False] show ?thesis
  proof
    assume "\<exists>t. ev = Ev_close t"
    then obtain t where e: "ev = Ev_close t" by blast
    with False have t: "t < created w" by (simp split: if_splits)
    show ?thesis
    proof (cases "reconnectAttempts w < 5")
      case True
      from close_event_lt [OF t True, of E] e True show ?thesis by simp
    next
      case False
      with assms have "5 \<le> reconnectAttempts w" by simp
      from close_event_ge [OF t this, of E] e assms show ?thesis by simp
    qed
  next
    assume "\<exists>t. ev = Ev_open t"
    then obtain t where e: "ev = Ev_open t" by blast
    with False have t: "t < created w" by (simp split: if_splits)
    with e show ?thesis by (simp add: onopen_def settle_def say_def Let_def)
  qed
qed

lemma run_attempts_le:
  "reconnectAttempts w \<le> 5 \<Longrightarrow> reconnectAttempts (run E evs w) \<le> 5"
proof (induction evs arbitrary: w)
  case Nil
  then show ?case by (simp add: run_def)
next
  case (Cons ev evs)
  from Cons.IH [OF step_attempts_le [OF Cons.prems, of E ev]] show ?case
    by (simp add: run_simps)
qed

lemma w_exhausted_fields:
  "reconnectAttempts w_exhausted = 5" "timers w_exhausted = []" "created w_exhausted = 6"
  by (simp_all add: w_exhausted_def run_simps eval_defs)

text \<open>
  C5, as the code has it. A close event while the counter is below 5 increments the
  counter and then schedules a timer of 1000 ms times the new counter; when that timer
  fires next it calls \<open>connect\<close>, which creates a new transport if the constructor
  accepts the URL. From counter 0 and no pending timer, a reconnection that keeps failing
  therefore schedules the delays 1000, 2000, 3000, 4000, 5000 and no more. At 5 a close event neither increments the counter nor
  schedules anything; only close and open events change the counter, it never exceeds 5,
  and every open event resets it to 0.
\<close>

theorem reconnect_backoff:
  "(t < created w \<and> reconnectAttempts w < 5 \<longrightarrow>
      reconnectAttempts (step E w (Ev_close t)) = Suc (reconnectAttempts w)
      \<and> timers (step E w (Ev_close t)) = timers w @ [1000 * Suc (reconnectAttempts w)])
   \<and> (t < created w \<and> 5 \<le> reconnectAttempts w \<longrightarrow>
      reconnectAttempts (step E w (Ev_close t)) = reconnectAttempts w
      \<and> timers (step E w (Ev_close t)) = timers w)
   \<and> (t < created w \<and> reconnectAttempts w < 5 \<and> ctor_ok E (url w) \<longrightarrow>
      created (run E [Ev_close t, Timer (length (timers w))] w) = Suc (created w)
      \<and> socket (run E [Ev_close t, Timer (length (timers w))] w) = Some (created w)
      \<and> ready (run E [Ev_close t, Timer (length (timers w))] w) (created w) = CONNECTING
      \<and> timers (run E [Ev_close t, Timer (length (timers w))] w) = timers w)
   \<and> (timers w = [] \<and> 0 < created w \<and> ctor_ok E (url w) \<and> reconnectAttempts w = 0 \<longrightarrow>
      retry_delays E k w = map (\<lambda>i. 1000 * i) [1 ..< Suc (min k 5)])
   \<and> (reconnectAttempts (step E w ev) \<noteq> reconnectAttempts w \<longrightarrow>
      (\<exists>t. ev = Ev_close t) \<or> (\<exists>t. ev = Ev_open t))
   \<and> reconnectAttempts (run E evs init) \<le> 5
   \<and> (t < created w \<longrightarrow> reconnectAttempts (step E w (Ev_open t)) = 0)"
proof -
  have a: "reconnectAttempts (step E w (Ev_close t)) = Suc (reconnectAttempts w)
      \<and> timers (step E w (Ev_close t)) = timers w @ [1000 * Suc (reconnectAttempts w)]"
    if "t < created w" "reconnectAttempts w < 5"
    using close_event_lt [OF that, of E] by simp
  have b: "reconnectAttempts (step E w (Ev_close t)) = reconnectAttempts w
      \<and> timers (step E w (Ev_close t)) = timers w"
    if "t < created w" "5 \<le> reconnectAttempts w"
    using close_event_ge [OF that, of E] by simp
  have c: "retry_delays E k w = map (\<lambda>i. 1000 * i) [1 ..< Suc (min k 5)]"
    if "timers w = []" "0 < created w" "ctor_ok E (url w)" "reconnectAttempts w = 0"
    using retry_delays_eq [OF that(1-3), of k] that(4) by simp
  have d: "reconnectAttempts (run E evs init) \<le> 5"
    by (rule run_attempts_le) (simp add: init_def)
  have e: "reconnectAttempts (step E w (Ev_open t)) = 0" if "t < created w"
    using that by (simp add: onopen_def settle_def say_def Let_def)
  from a b c d e close_then_timer [of t w E] step_attempts [of E w ev]
  show ?thesis by blast
qed

theorem reconnect_backoff_witness:
  "reconnectAttempts w_open = 0
   \<and> timers (step env0 w_open (Ev_close 0)) = [1000]
   \<and> reconnectAttempts (step env0 w_open (Ev_close 0)) = 1
   \<and> created (run env0 [Ev_close 0, Timer 0] w_open) = 2
   \<and> ready (run env0 [Ev_close 0, Timer 0] w_open) 1 = CONNECTING
   \<and> retry_delays env0 7 w_open = [1000, 2000, 3000, 4000, 5000]
   \<and> reconnectAttempts w_exhausted = 5
   \<and> timers (step env0 w_exhausted (Ev_close 5)) = []
   \<and> reconnectAttempts (step env0 w_exhausted (Ev_open 5)) = 0"
proof -
  have ok: "ctor_ok env0 (url w_open)" by (simp add: env0_def)
  have u: "[1 ..< Suc (min 7 5)] = [1, 2, 3, 4, 5::nat]" by (simp add: upt_rec)
  note A = reconnect_backoff [where w = w_open and E = env0 and t = 0 and k = 7
      and ev = "Ev_close 0" and evs = "[]"]
  from A w_open_fields ok
  have a: "timers (step env0 w_open (Ev_close 0)) = [1000]"
    "reconnectAttempts (step env0 w_open (Ev_close 0)) = 1"
    "created (run env0 [Ev_close 0, Timer 0] w_open) = 2"
    "ready (run env0 [Ev_close 0, Timer 0] w_open) 1 = CONNECTING"
    by (simp_all del: step.simps)
  from A w_open_fields ok have "retry_delays env0 7 w_open = map (\<lambda>i. 1000 * i) [1 ..< Suc (min 7 5)]"
    by (simp del: step.simps retry_delays.simps upt_Suc)
  then have b: "retry_delays env0 7 w_open = [1000, 2000, 3000, 4000, 5000]"
    by (simp only: u) simp
  note B = reconnect_backoff [where w = w_exhausted and E = env0 and t = 5 and k = 0
      and ev = "Ev_open 5" and evs = "[]"]
  from B w_exhausted_fields
  have c: "timers (step env0 w_exhausted (Ev_close 5)) = []"
    "reconnectAttempts (step env0 w_exhausted (Ev_open 5)) = 0"
    by (simp_all del: step.simps)
  from a b c w_open_fields w_exhausted_fields show ?thesis by simp
qed

text \<open>
  The claim C5 fails at the ceiling: after an open connection dropped and five
  reconnections failed the counter is 5, which does not exceed 5, and the next close
  event does not increment it and schedules nothing.
\<close>

theorem close_at_ceiling:
  "reconnectAttempts w_exhausted = 5
   \<and> timers w_exhausted = []
   \<and> created w_exhausted = 6
   \<and> reconnectAttempts (step env0 w_exhausted (Ev_close 5)) = 5
   \<and> timers (step env0 w_exhausted (Ev_close 5)) = []"
  by (simp add: w_exhausted_fields eval_defs)

section \<open>send\<close>

text \<open>
  C7. A call of \<open>send\<close> while the connection is not open transmits nothing and changes
  nothing of the state but the console, which gets one warning; the message is kept
  nowhere. The function has no other result: nothing is thrown or returned.
\<close>

theorem send_not_connected:
  assumes "\<not> isConnected w"
  shows "send E m w =
           w\<lparr>console := console w @ [(Warn, ''WebSocket is not connected. Message not sent:'')]\<rparr>
         \<and> sent (send E m w) = sent w"
  using assms by (simp add: send_def say_def)

theorem send_not_connected_witness:
  "\<not> isConnected init
   \<and> send env0 (JStr ''hello'') init =
       init\<lparr>console := [(Warn, ''WebSocket is not connected. Message not sent:'')]\<rparr>
   \<and> sent (send env0 (JStr ''hello'') init) = []"
proof -
  have h: "\<not> isConnected init" by (simp add: isConnected_def init_def)
  from send_not_connected [OF h, of env0 "JStr ''hello''"] h show ?thesis
    by (simp add: init_def)
qed

section \<open>disconnect\<close>

text \<open>
  C9. \<open>disconnect\<close> is idempotent: a second call in a row leaves the state of the first
  (no transport, no handlers, no pending connection promise). The function has no
  failing branch.
\<close>

theorem disconnect_idem:
  "disconnect (disconnect w) = disconnect w
   \<and> socket (disconnect w) = None
   \<and> messageHandlers (disconnect w) = []
   \<and> connectionPromise (disconnect w) = None"
  by (cases "socket w") (simp_all add: disconnect_def ws_close_def)

theorem disconnect_idem_witness:
  "disconnect (disconnect w_open) = disconnect w_open
   \<and> socket (disconnect w_open) = None
   \<and> ready (disconnect w_open) 0 = CLOSING"
  using disconnect_idem [of w_open]
  by (simp add: w_open_def run_simps eval_defs)


lemma close_event_schedules:
  assumes "t < created w" "reconnectAttempts w < 5"
  shows "timers (step E w (Ev_close t)) = timers w @ [1000 * Suc (reconnectAttempts w)]"
  using assms onclose_lt [of "w\<lparr>ready := (ready w)(t := CLOSED)\<rparr>"] by simp






section \<open>readyState\<close>

text \<open>
  C10. The getter returns 3 (\<^verbatim>\<open>WebSocket.CLOSED\<close>) when there is no transport and
  when the transport is connecting (ready state 0, which is falsy); otherwise it returns
  the transport's ready state.
\<close>

theorem readyState_getter:
  "readyState w =
     (case socket w of
        None \<Rightarrow> 3
      | Some t \<Rightarrow> (if ready w t = CONNECTING then 3 else code (ready w t)))"
  by (cases "socket w"; cases "ready w (the (socket w))")
     (auto simp: readyState_def WebSocket_CLOSED_def)

theorem readyState_getter_witness:
  "readyState (snd (connect env0 init)) = 3
   \<and> socket (snd (connect env0 init)) = Some 0
   \<and> code (ready (snd (connect env0 init)) 0) = 0"
  using readyState_getter [of "snd (connect env0 init)"]
  by (simp add: connect_def init_def env0_def isConnected_def new_promise_def say_def)

section \<open>connect\<close>

lemma connects_pending:
  assumes "\<not> isConnected w" "connectionPromise w = Some p"
  shows "connects E n w =
           (replicate n p,
            w\<lparr>console := console w @ replicate n (Info, ''WebSocket connection in progress'')\<rparr>)"
  using assms
proof (induction n arbitrary: w)
  case 0
  then show ?case by simp
next
  case (Suc n)
  let ?w1 = "say Info ''WebSocket connection in progress'' w"
  from Suc.prems have c: "connect E w = (p, ?w1)" by (rule connect_pending)
  from Suc.prems have "\<not> isConnected ?w1" "connectionPromise ?w1 = Some p"
    by (simp_all add: isConnected_def say_def split: option.splits)
  from Suc.IH [OF this] c show ?case
    by (simp add: say_def replicate_app_Cons_same)
qed

lemma connects_idle:
  assumes "\<not> isConnected w" "connectionPromise w = None" "ctor_ok E (url w)"
  shows "connects E (Suc n) w =
     (replicate (Suc n) (npromises w),
      w\<lparr>socket := Some (created w),
        connectionPromise := Some (npromises w),
        ready := (ready w)(created w := CONNECTING),
        resolver := (resolver w)(created w := npromises w),
        created := Suc (created w),
        promises := (promises w)(npromises w := Pending),
        npromises := Suc (npromises w),
        console := console w @ (Info, ''Attempting to connect to:'')
                     # replicate n (Info, ''WebSocket connection in progress'')\<rparr>)"
proof -
  let ?w1 = "snd (connect E w)"
  note c = connect_idle [OF assms]
  from c have "\<not> isConnected ?w1" "connectionPromise ?w1 = Some (npromises w)"
    by (simp_all add: isConnected_def)
  from connects_pending [OF this, of E n] c show ?thesis by simp
qed

lemma connecting_step:
  assumes "connecting t p w" "sharing_safe ev"
  shows "connecting t p (step E w ev)"
proof (cases ev)
  case Call_connect
  from assms(1) have "\<not> isConnected w" "connectionPromise w = Some p"
    by (simp_all add: connecting_def isConnected_def)
  from connect_pending [OF this, of E] assms(1) Call_connect show ?thesis
    by (simp add: connecting_def say_def)
next
  case (Call_send m)
  with assms(1) show ?thesis by (simp add: connecting_def send_def isConnected_def say_def)
next
  case (Ev_message t' d)
  from onmessage_shape [of E d w] obtain hs cs co where
    "snd (onmessage E d w) = w\<lparr>messageHandlers := hs, calls := cs, console := co\<rparr>" by blast
  with assms(1) Ev_message show ?thesis by (simp add: connecting_def)
next
  case (Timer i)
  let ?w = "w\<lparr>timers := take i (timers w) @ drop (Suc i) (timers w)\<rparr>"
  from assms(1) have "\<not> isConnected ?w" "connectionPromise ?w = Some p"
    by (simp_all add: connecting_def isConnected_def)
  from connect_pending [OF this, of E] assms(1) Timer show ?thesis
    by (simp add: connecting_def say_def timer_fire_def)
qed (use assms in \<open>simp_all add: connecting_def onMessage_def unregister_def setUrl_def\<close>)

lemma connecting_run:
  assumes "connecting t p w" "list_all sharing_safe evs"
  shows "connecting t p (run E evs w)
    \<and> outcomes E evs w = replicate (length (filter (\<lambda>e. e = Call_connect) evs)) p"
  using assms
proof (induction evs arbitrary: w)
  case Nil
  then show ?case by (simp add: run_def)
next
  case (Cons ev evs)
  from Cons.prems have s: "sharing_safe ev" "list_all sharing_safe evs" by simp_all
  from connecting_step [OF Cons.prems(1) s(1), of E]
  have c: "connecting t p (step E w ev)" .
  note ih = Cons.IH [OF c s(2)]
  show ?case
  proof (cases "ev = Call_connect")
    case True
    from Cons.prems(1) have "\<not> isConnected w" "connectionPromise w = Some p"
      by (simp_all add: connecting_def isConnected_def)
    from connect_pending [OF this, of E] have "fst (connect E w) = p" by simp
    with True ih show ?thesis by (simp add: run_simps)
  next
    case False
    then have "outcomes E (ev # evs) w = outcomes E evs (step E w ev)"
      by (cases ev) simp_all
    with False ih show ?thesis by (simp add: run_simps)
  qed
qed

text \<open>
  C2, as the code has it. Start in a state with no open connection and with
  \<^verbatim>\<open>connectionPromise\<close> null, let \<^verbatim>\<open>new WebSocket\<close> accept the URL, and take any
  trace that begins with a call of \<open>connect\<close> and goes on with further calls and other
  events, none of them an open, error or close event or a call of \<open>disconnect\<close>. Then
  exactly one transport is created, every call returns the same promise, which is
  pending, and that promise is fulfilled by the transport's open event and rejected by
  its error event.
\<close>

theorem concurrent_connects:
  assumes "\<not> isConnected w" "connectionPromise w = None" "ctor_ok E (url w)"
    and "list_all sharing_safe evs"
  shows "outcomes E (Call_connect # evs) w
           = replicate (Suc (length (filter (\<lambda>e. e = Call_connect) evs))) (npromises w)
   \<and> created (run E (Call_connect # evs) w) = Suc (created w)
   \<and> socket (run E (Call_connect # evs) w) = Some (created w)
   \<and> ready (run E (Call_connect # evs) w) (created w) = CONNECTING
   \<and> connectionPromise (run E (Call_connect # evs) w) = Some (npromises w)
   \<and> promises (run E (Call_connect # evs) w) (npromises w) = Pending
   \<and> promises (step E (run E (Call_connect # evs) w) (Ev_open (created w))) (npromises w)
       = Fulfilled
   \<and> promises (step E (run E (Call_connect # evs) w) (Ev_error (created w))) (npromises w)
       = Rejected"
proof -
  let ?w1 = "step E w Call_connect"
  note c = connect_idle [OF assms(1-3)]
  from c have c1: "connecting (created w) (npromises w) ?w1"
    by (simp add: connecting_def)
  from connecting_run [OF c1 assms(4), of E]
  have r: "connecting (created w) (npromises w) (run E evs ?w1)"
    and o: "outcomes E evs ?w1
      = replicate (length (filter (\<lambda>e. e = Call_connect) evs)) (npromises w)"
    by simp_all
  from c have f: "fst (connect E w) = npromises w" by simp
  from r have "connecting (created w) (npromises w) (run E (Call_connect # evs) w)"
    by (simp add: run_simps)
  then show ?thesis using o f
    by (simp add: connecting_def onopen_def onerror_def settle_def say_def Let_def)
qed

theorem concurrent_connects_witness:
  "outcomes env0 [Call_connect, Call_onMessage 3, Call_connect, Ev_message 0 ''x'', Timer 0,
       Call_send JNull, Call_connect] init = [0, 0, 0]
   \<and> created (run env0 [Call_connect, Call_onMessage 3, Call_connect, Ev_message 0 ''x'',
       Timer 0, Call_send JNull, Call_connect] init) = 1
   \<and> promises (step env0 (run env0 [Call_connect, Call_onMessage 3, Call_connect,
       Ev_message 0 ''x'', Timer 0, Call_send JNull, Call_connect] init) (Ev_open 0)) 0 = Fulfilled
   \<and> promises (step env0 (run env0 [Call_connect, Call_onMessage 3, Call_connect,
       Ev_message 0 ''x'', Timer 0, Call_send JNull, Call_connect] init) (Ev_error 0)) 0 = Rejected"
proof -
  have h: "\<not> isConnected init" "connectionPromise init = None" "ctor_ok env0 (url init)"
    "list_all sharing_safe [Call_onMessage 3, Call_connect, Ev_message 0 ''x'', Timer 0,
       Call_send JNull, Call_connect]"
    by (simp_all add: isConnected_def init_def env0_def)
  have i: "npromises init = 0" "created init = 0" by (simp_all add: init_def)
  from concurrent_connects [OF h] i show ?thesis
    by (simp del: outcomes.simps step.simps)
qed

text \<open>
  The claim C2 fails in two ways. When \<^verbatim>\<open>new WebSocket\<close> throws (as it does on a
  URL with a fragment) three calls create no transport at all. And when an event is
  handled between two calls, both callers can be waiting on attempts of their own: after
  \<open>disconnect\<close>
  and a new \<open>connect\<close>, the close event of the old transport clears the transport
  reference and the pending promise, and the next \<open>connect\<close> creates a third transport
  while the second is still connecting.
\<close>

theorem connects_not_one_transport:
  "created (snd (connects env_strict 3 (setUrl ''ws://localhost:8080/ws#x'' init))) = 0
   \<and> fst (connects env_strict 3 (setUrl ''ws://localhost:8080/ws#x'' init)) = [0, 0, 0]
   \<and> promises (snd (connects env_strict 3 (setUrl ''ws://localhost:8080/ws#x'' init))) 0 = Rejected
   \<and> \<not> isConnected (setUrl ''ws://localhost:8080/ws#x'' init)
   \<and> \<not> isConnected w_again
   \<and> fst (connect env0 w_again) = 1
   \<and> fst (connect env0 (step env0 (snd (connect env0 w_again)) (Ev_close 0))) = 2
   \<and> created (snd (connect env0 (step env0 (snd (connect env0 w_again)) (Ev_close 0)))) = 3
   \<and> ready (snd (connect env0 (step env0 (snd (connect env0 w_again)) (Ev_close 0)))) 1
       = CONNECTING
   \<and> ready (snd (connect env0 (step env0 (snd (connect env0 w_again)) (Ev_close 0)))) 2
       = CONNECTING"
  by (simp add: numeral_3_eq_3 env_strict_def setUrl_def w_again_def run_simps eval_defs)

section \<open>Errors during establishment\<close>

lemma error_event_frame:
  "timers (step E w (Ev_error t)) = timers w
   \<and> reconnectAttempts (step E w (Ev_error t)) = reconnectAttempts w"
  by (simp add: onerror_def settle_def say_def Let_def)

text \<open>
  C4, as the code has it. An error event before the open rejects the promise the waiting
  callers share and clears the transport reference and the pending promise; the error
  handler schedules nothing (timers and counter are as before). A reconnection is
  scheduled by close events only, and by every close event of a transport while the
  counter is below 5, whether or not that transport was ever open.
\<close>

theorem error_no_retry:
  "(\<not> isConnected w \<and> connectionPromise w = None \<and> ctor_ok E (url w) \<and> 0 < n \<longrightarrow>
      promises (step E (snd (connects E n w)) (Ev_error (created w))) (npromises w) = Rejected
      \<and> timers (step E (snd (connects E n w)) (Ev_error (created w))) = timers w
      \<and> socket (step E (snd (connects E n w)) (Ev_error (created w))) = None
      \<and> connectionPromise (step E (snd (connects E n w)) (Ev_error (created w))) = None)
   \<and> timers (step E w (Ev_error t)) = timers w
   \<and> reconnectAttempts (step E w (Ev_error t)) = reconnectAttempts w
   \<and> (length (timers w) < length (timers (step E w ev)) \<longrightarrow> (\<exists>t'. ev = Ev_close t'))
   \<and> (t < created w \<and> reconnectAttempts w < 5 \<longrightarrow>
        timers (step E w (Ev_close t)) = timers w @ [1000 * Suc (reconnectAttempts w)])"
proof -
  have a: "promises (step E (snd (connects E n w)) (Ev_error (created w))) (npromises w) = Rejected
      \<and> timers (step E (snd (connects E n w)) (Ev_error (created w))) = timers w
      \<and> socket (step E (snd (connects E n w)) (Ev_error (created w))) = None
      \<and> connectionPromise (step E (snd (connects E n w)) (Ev_error (created w))) = None"
    if h: "\<not> isConnected w" "connectionPromise w = None" "ctor_ok E (url w)" "0 < n"
  proof -
    from h(4) obtain k where n: "n = Suc k" by (cases n) simp_all
    note c = connects_idle [OF h(1-3), of k]
    show ?thesis unfolding n
      by (simp add: c onerror_def settle_def say_def Let_def del: connects.simps)
  qed
  from a error_event_frame [of E w t] step_timers_grow [of w E ev]
    close_event_schedules [of t w E]
  show ?thesis by (simp del: step.simps)
qed

theorem error_no_retry_witness:
  "promises (step env0 (snd (connects env0 2 init)) (Ev_error 0)) 0 = Rejected
   \<and> timers (step env0 (snd (connects env0 2 init)) (Ev_error 0)) = []
   \<and> timers (step env0 w_open (Ev_close 0)) = [1000]
   \<and> length (timers w_open) < length (timers (step env0 w_open (Ev_close 0)))"
proof -
  have h: "\<not> isConnected init" "connectionPromise init = None" "ctor_ok env0 (url init)"
    "0 < (2::nat)"
    by (simp_all add: isConnected_def init_def env0_def)
  have i: "npromises init = 0" "created init = 0" "timers init = []" by (simp_all add: init_def)
  from error_no_retry [where w = init and E = env0 and n = 2 and t = 0 and ev = Call_connect] h i
  have a: "promises (step env0 (snd (connects env0 2 init)) (Ev_error 0)) 0 = Rejected
   \<and> timers (step env0 (snd (connects env0 2 init)) (Ev_error 0)) = []"
    by (simp del: connects.simps step.simps)
  from error_no_retry [where w = w_open and E = env0 and n = 0 and t = 0 and ev = "Ev_close 0"]
    w_open_fields
  have b: "timers (step env0 w_open (Ev_close 0)) = [1000]"
    by (simp del: connects.simps step.simps)
  from a b w_open_fields show ?thesis by (simp del: connects.simps step.simps)
qed

text \<open>
  The claim C4 fails: the platform follows the error event of a failed connection by the
  close event of the same transport, and the close handler schedules a reconnection for
  it although the transport never opened; the timer then creates a second transport.
\<close>

theorem failed_connect_schedules_retry:
  "promises (run env0 [Call_connect, Ev_error 0] init) 0 = Rejected
   \<and> timers (run env0 [Call_connect, Ev_error 0] init) = []
   \<and> timers (run env0 [Call_connect, Ev_error 0, Ev_close 0] init) = [1000]
   \<and> created (run env0 [Call_connect, Ev_error 0, Ev_close 0, Timer 0] init) = 2"
  by (simp add: run_simps eval_defs)

section \<open>Dispatch\<close>

lemma invoked_append: "invoked (a @ b) = invoked a @ invoked b"
  by (induction a rule: invoked.induct) simp_all

lemma perform_invoked: "invoked (calls (snd (perform as w))) = invoked (calls w)"
  by (induction as w rule: perform.induct)
     (simp_all add: unregister_def onMessage_def invoked_append)

lemma perform_ok: "Raise \<notin> set as \<Longrightarrow> fst (perform as w) = None"
  by (induction as w rule: perform.induct) simp_all

lemma invoke_invoked: "invoked (calls (snd (invoke E m h w))) = invoked (calls w) @ [h]"
  by (simp add: invoke_def perform_invoked invoked_append)

lemma perform_exact:
  "messageHandlers (snd (perform as w))
     = foldl apply_action (messageHandlers w) (takeWhile (\<lambda>a. a \<noteq> Raise) as)
   \<and> fst (perform as w) = (if Raise \<in> set as then Some HandlerError else None)
   \<and> console (snd (perform as w)) = console w
   \<and> sent (snd (perform as w)) = sent w"
  by (induction as w rule: perform.induct) (simp_all add: unregister_def onMessage_def)

lemma pass_Nil: "pass E m [] = []"
  by (simp add: pass_def)

lemma pass_Cons:
  "pass E m (h # hs) = (if throws E m h then [h] else h # pass E m hs)"
  by (simp add: pass_def)

lemma performed_Cons:
  "performed E m (h # hs) = takeWhile (\<lambda>a. a \<noteq> Raise) (handler_body E h m) @ performed E m hs"
  by (simp add: performed_def)

lemma forEach_exact:
  "invoked (calls (snd (forEach E m hs w))) = invoked (calls w) @ pass E m hs
   \<and> messageHandlers (snd (forEach E m hs w))
       = foldl apply_action (messageHandlers w) (performed E m (pass E m hs))
   \<and> fst (forEach E m hs w) = (if \<exists>h\<in>set hs. throws E m h then Some HandlerError else None)
   \<and> console (snd (forEach E m hs w)) = console w
   \<and> sent (snd (forEach E m hs w)) = sent w"
proof (induction hs arbitrary: w)
  case Nil
  then show ?case by (simp add: pass_Nil performed_def)
next
  case (Cons h hs)
  let ?w0 = "w\<lparr>calls := calls w @ [Invoked h m]\<rparr>"
  obtain r w' where inv: "invoke E m h w = (r, w')" by (cases "invoke E m h w")
  then have p: "perform (handler_body E h m) ?w0 = (r, w')" by (simp add: invoke_def)
  from perform_exact [of "handler_body E h m" ?w0] p
  have mh: "messageHandlers w'
      = foldl apply_action (messageHandlers w) (takeWhile (\<lambda>a. a \<noteq> Raise) (handler_body E h m))"
    and r: "r = (if throws E m h then Some HandlerError else None)"
    and co: "console w' = console w" and se: "sent w' = sent w"
    by (simp_all add: throws_def)
  from inv invoke_invoked [of E m h w] have c: "invoked (calls w') = invoked (calls w) @ [h]"
    by simp
  show ?case
  proof (cases "throws E m h")
    case True
    with inv r mh c co se show ?thesis
      by (simp add: pass_Cons performed_Cons performed_def)
  next
    case False
    with inv r mh c co se Cons.IH [of w'] show ?thesis
      by (simp add: pass_Cons performed_Cons)
  qed
qed

lemma removed_absent:
  "Unregister h \<in> set acts \<Longrightarrow> Register h \<notin> set acts \<Longrightarrow> h \<notin> set (foldl apply_action hs acts)"
proof (induction acts rule: rev_induct)
  case Nil
  then show ?case by simp
next
  case (snoc a acts)
  show ?case
  proof (cases a)
    case (Unregister h')
    with snoc show ?thesis by (cases "h' = h") auto
  next
    case (Register h')
    with snoc show ?thesis by auto
  next
    case Raise
    with snoc show ?thesis by auto
  qed
qed

lemma set_pass: "set (pass E m hs) \<subseteq> set hs"
  by (simp add: pass_def set_take_subset)

text \<open>
  C6, as the code has it. Handlers are registered at the end of the list. A dispatch
  calls the handlers that were in the list when it started, in that order, up to and
  with the first one that throws (all of them if none throws), whatever the handlers
  remove or register meanwhile. The list after the dispatch is the list before it with
  the actions of the called handlers applied in order; a handler that was removed during
  the dispatch and not registered again is not in it, and the next dispatch does not
  call it.
\<close>

theorem dispatch_snapshot:
  "invoked (calls (snd (notifyHandlers E m w))) = invoked (calls w) @ pass E m (messageHandlers w)
   \<and> ((\<forall>h\<in>set (messageHandlers w). \<not> throws E m h) \<longrightarrow>
        pass E m (messageHandlers w) = messageHandlers w)
   \<and> fst (notifyHandlers E m w)
       = (if \<exists>h\<in>set (messageHandlers w). throws E m h then Some HandlerError else None)
   \<and> messageHandlers (snd (notifyHandlers E m w))
       = foldl apply_action (messageHandlers w) (performed E m (pass E m (messageHandlers w)))
   \<and> (Unregister h \<in> set (performed E m (pass E m (messageHandlers w)))
        \<and> Register h \<notin> set (performed E m (pass E m (messageHandlers w))) \<longrightarrow>
        h \<notin> set (messageHandlers (snd (notifyHandlers E m w)))
        \<and> h \<notin> set (pass E m' (messageHandlers (snd (notifyHandlers E m w)))))
   \<and> messageHandlers (onMessage h w) = messageHandlers w @ [h]"
proof -
  note fe = forEach_exact [of E m "messageHandlers w" w]
  have all: "pass E m (messageHandlers w) = messageHandlers w"
    if "\<forall>h\<in>set (messageHandlers w). \<not> throws E m h"
  proof -
    from that have "takeWhile (\<lambda>h. \<not> throws E m h) (messageHandlers w) = messageHandlers w"
      by (simp add: takeWhile_eq_all_conv)
    then have "length (takeWhile (\<lambda>h. \<not> throws E m h) (messageHandlers w))
        = length (messageHandlers w)"
      by (rule arg_cong)
    then show ?thesis by (simp add: pass_def)
  qed
  have gone: "h \<notin> set (messageHandlers (snd (notifyHandlers E m w)))
        \<and> h \<notin> set (pass E m' (messageHandlers (snd (notifyHandlers E m w))))"
    if "Unregister h \<in> set (performed E m (pass E m (messageHandlers w)))"
      "Register h \<notin> set (performed E m (pass E m (messageHandlers w)))"
  proof -
    from removed_absent [OF that, of "messageHandlers w"] fe
    have a: "h \<notin> set (messageHandlers (snd (notifyHandlers E m w)))"
      by (simp add: notifyHandlers_def)
    with set_pass [of E m' "messageHandlers (snd (notifyHandlers E m w))"] show ?thesis by blast
  qed
  from fe all gone show ?thesis by (simp add: notifyHandlers_def onMessage_def)
qed

theorem dispatch_snapshot_witness:
  "invoked (calls (snd (notifyHandlers env_remove JNull w_two))) = [0, 1]
   \<and> messageHandlers w_two = [0, 1]
   \<and> messageHandlers (snd (notifyHandlers env_remove JNull w_two)) = [0]
   \<and> 1 \<notin> set (pass env_remove JNull (messageHandlers (snd (notifyHandlers env_remove JNull w_two))))
   \<and> invoked (calls (snd (notifyHandlers env_raise JNull w_three))) = [0, 1]
   \<and> fst (notifyHandlers env_raise JNull w_three) = Some HandlerError
   \<and> messageHandlers (snd (notifyHandlers env_raise JNull w_three)) = [1, 2]"
proof -
  have f: "messageHandlers w_two = [0, 1]" "calls w_two = []"
    "messageHandlers w_three = [0, 1, 2]" "calls w_three = []"
    by (simp_all add: w_two_def w_three_def onMessage_def init_def)
  have t: "\<forall>h\<in>set (messageHandlers w_two). \<not> throws env_remove JNull h"
    by (simp add: f throws_def env_remove_def env0_def)
  have p: "pass env_remove JNull [0, 1] = [0, 1]"
    "performed env_remove JNull [0, 1] = [Unregister 1]"
    by (simp_all add: pass_def performed_def throws_def env_remove_def env0_def)
  have q: "pass env_raise JNull [0, 1, 2] = [0, 1]"
    "performed env_raise JNull [0, 1] = [Unregister 0]"
    "\<exists>h\<in>set (messageHandlers w_three). throws env_raise JNull h"
    by (simp_all add: f pass_def performed_def throws_def env_raise_def env0_def)
  note T = dispatch_snapshot [where w = w_two and E = env_remove and m = JNull and h = 1
      and m' = JNull]
  from T t have n: "pass env_remove JNull (messageHandlers w_two) = messageHandlers w_two"
    by blast
  from T have a: "invoked (calls (snd (notifyHandlers env_remove JNull w_two)))
      = invoked (calls w_two) @ pass env_remove JNull (messageHandlers w_two)"
    and b: "messageHandlers (snd (notifyHandlers env_remove JNull w_two))
      = foldl apply_action (messageHandlers w_two)
          (performed env_remove JNull (pass env_remove JNull (messageHandlers w_two)))"
    by blast+
  have u: "Unregister 1 \<in> set (performed env_remove JNull (pass env_remove JNull (messageHandlers w_two)))"
    "Register 1 \<notin> set (performed env_remove JNull (pass env_remove JNull (messageHandlers w_two)))"
    by (simp_all add: f pass_def performed_def throws_def env_remove_def env0_def)
  from T u have c: "1 \<notin> set (pass env_remove JNull
      (messageHandlers (snd (notifyHandlers env_remove JNull w_two))))"
    by blast
  note U = dispatch_snapshot [where w = w_three and E = env_raise and m = JNull and h = 0
      and m' = JNull]
  from U have d: "invoked (calls (snd (notifyHandlers env_raise JNull w_three)))
      = invoked (calls w_three) @ pass env_raise JNull (messageHandlers w_three)"
    and e: "fst (notifyHandlers env_raise JNull w_three)
       = (if \<exists>h\<in>set (messageHandlers w_three). throws env_raise JNull h
          then Some HandlerError else None)"
    and g: "messageHandlers (snd (notifyHandlers env_raise JNull w_three))
      = foldl apply_action (messageHandlers w_three)
          (performed env_raise JNull (pass env_raise JNull (messageHandlers w_three)))"
    by blast+
  from q(3) e have e': "fst (notifyHandlers env_raise JNull w_three) = Some HandlerError"
    by simp
  from a b c d e' g show ?thesis
    by (simp add: n f pass_def performed_def throws_def env_remove_def env_raise_def env0_def)
qed

text \<open>
  The claim C6 fails: a removal during a dispatch has no effect on that dispatch. A
  handler removed by an earlier handler is still called in the same pass, and a handler
  registered twice that removes itself at its first call is called a second time.
\<close>

theorem removed_handler_still_invoked:
  "calls (snd (notifyHandlers env_remove JNull w_two)) = [Invoked 0 JNull, Removed 1, Invoked 1 JNull]
   \<and> \<not> silent_after_removal (calls (snd (notifyHandlers env_remove JNull w_two)))
   \<and> messageHandlers (snd (notifyHandlers env_remove JNull w_two)) = [0]
   \<and> calls (snd (notifyHandlers env_self JNull w_twice))
       = [Invoked 0 JNull, Removed 0, Invoked 0 JNull, Removed 0]
   \<and> \<not> silent_after_removal (calls (snd (notifyHandlers env_self JNull w_twice)))"
  by (simp add: notifyHandlers_def w_two_def w_twice_def onMessage_def init_def invoke_def
      env_remove_def env_self_def env0_def unregister_def)

section \<open>Inbound data\<close>

lemma onmessage_no_exn: "fst (onmessage E d w) = None"
  by (simp add: onmessage_def split: prod.split option.split)

lemma onmessage_unparsed:
  "JSON_parse E d = None \<Longrightarrow>
     onmessage E d w = (None, say Error ''Error parsing WebSocket message:'' w)"
  by (simp add: onmessage_def onmessage_try_def)

lemma env_json_parse:
  "JSON_parse env_json ''oops'' = None"
  "JSON_parse env_json ''42'' = Some (JNum 42)"
  "JSON_parse env_json left_text = Some left_msg"
  "handler_body env_json = (\<lambda>_ _. [])"
  by (simp_all add: env_json_def env0_def left_text_def)

lemma onmessage_exact:
  assumes "JSON_parse E d = Some m"
  shows "invoked (calls (snd (onmessage E d w))) = invoked (calls w) @ pass E m (messageHandlers w)
   \<and> messageHandlers (snd (onmessage E d w))
       = foldl apply_action (messageHandlers w) (performed E m (pass E m (messageHandlers w)))
   \<and> console (snd (onmessage E d w))
       = console w @ (Info, ''Received message:'')
           # (if \<exists>h\<in>set (messageHandlers w). throws E m h
              then [(Error, ''Error parsing WebSocket message:'')] else [])
   \<and> sent (snd (onmessage E d w)) = sent w"
proof -
  let ?w1 = "say Info ''Received message:'' w"
  have mh: "messageHandlers ?w1 = messageHandlers w" "calls ?w1 = calls w"
    "console ?w1 = console w @ [(Info, ''Received message:'')]" "sent ?w1 = sent w"
    by (simp_all add: say_def)
  obtain r w' where fe: "forEach E m (messageHandlers w) ?w1 = (r, w')"
    by (cases "forEach E m (messageHandlers w) ?w1")
  from forEach_exact [of E m "messageHandlers w" ?w1] fe mh
  have x: "invoked (calls w') = invoked (calls w) @ pass E m (messageHandlers w)"
    "messageHandlers w'
       = foldl apply_action (messageHandlers w) (performed E m (pass E m (messageHandlers w)))"
    "r = (if \<exists>h\<in>set (messageHandlers w). throws E m h then Some HandlerError else None)"
    "console w' = console w @ [(Info, ''Received message:'')]" "sent w' = sent w"
    by simp_all
  show ?thesis
  proof (cases "\<exists>h\<in>set (messageHandlers w). throws E m h")
    case True
    with x fe assms mh show ?thesis
      by (simp add: onmessage_def onmessage_try_def notifyHandlers_def say_def)
  next
    case False
    with x fe assms mh show ?thesis
      by (simp add: onmessage_def onmessage_try_def notifyHandlers_def)
  qed
qed

lemma onmessage_after_say:
  "invoked (calls (snd (onmessage E d (say l s w)))) = invoked (calls (snd (onmessage E d w)))
   \<and> messageHandlers (snd (onmessage E d (say l s w))) = messageHandlers (snd (onmessage E d w))"
proof (cases "JSON_parse E d")
  case None
  then show ?thesis by (simp add: onmessage_def onmessage_try_def say_def)
next
  case (Some m)
  from onmessage_exact [OF Some, of w] onmessage_exact [OF Some, of "say l s w"]
  show ?thesis by (simp add: say_def)
qed

text \<open>
  C8, as the code has it. A datum on which \<^verbatim>\<open>JSON.parse\<close> throws is dropped with one
  error on the console: no handler is called and nothing else changes, and a later datum
  is dispatched to the same handlers as if the bad one had not come. No exception leaves
  the handler, for any datum. A datum that \<^verbatim>\<open>JSON.parse\<close> accepts is dispatched
  whatever its shape: the handlers are called with it in order, up to and with the first
  one that throws, and an exception of a handler is logged as a parse error.
\<close>

theorem unparsable_dropped:
  "(JSON_parse E d = None \<longrightarrow>
      onmessage E d w = (None, say Error ''Error parsing WebSocket message:'' w)
      \<and> calls (snd (onmessage E d w)) = calls w
      \<and> invoked (calls (snd (onmessage E d' (snd (onmessage E d w)))))
          = invoked (calls (snd (onmessage E d' w)))
      \<and> messageHandlers (snd (onmessage E d' (snd (onmessage E d w))))
          = messageHandlers (snd (onmessage E d' w)))
   \<and> fst (onmessage E d w) = None
   \<and> (JSON_parse E d = Some m \<longrightarrow>
      invoked (calls (snd (onmessage E d w))) = invoked (calls w) @ pass E m (messageHandlers w)
      \<and> console (snd (onmessage E d w))
          = console w @ (Info, ''Received message:'')
              # (if \<exists>h\<in>set (messageHandlers w). throws E m h
                 then [(Error, ''Error parsing WebSocket message:'')] else []))"
proof -
  have a: "onmessage E d w = (None, say Error ''Error parsing WebSocket message:'' w)
      \<and> calls (snd (onmessage E d w)) = calls w
      \<and> invoked (calls (snd (onmessage E d' (snd (onmessage E d w)))))
          = invoked (calls (snd (onmessage E d' w)))
      \<and> messageHandlers (snd (onmessage E d' (snd (onmessage E d w))))
          = messageHandlers (snd (onmessage E d' w))"
    if h: "JSON_parse E d = None"
    using onmessage_unparsed [OF h, of w]
      onmessage_after_say [of E d' Error "''Error parsing WebSocket message:''" w]
    by (simp add: say_def)
  from a onmessage_no_exn [of E d w] onmessage_exact [of E d m w]
  show ?thesis by blast
qed

theorem unparsable_dropped_witness:
  "calls (snd (onmessage env_json ''oops'' w_seven)) = []
   \<and> console (snd (onmessage env_json ''oops'' w_seven))
       = [(Error, ''Error parsing WebSocket message:'')]
   \<and> invoked (calls (snd (onmessage env_json left_text
         (snd (onmessage env_json ''oops'' w_seven))))) = [7]
   \<and> invoked (calls (snd (onmessage env_json left_text w_seven))) = [7]
   \<and> is_envelope left_msg
   \<and> invoked (calls (snd (onmessage env_picky ''42'' w_pair))) = [7]
   \<and> console (snd (onmessage env_picky ''42'' w_pair))
       = [(Info, ''Received message:''), (Error, ''Error parsing WebSocket message:'')]"
proof -
  have f: "messageHandlers w_seven = [7]" "calls w_seven = []" "console w_seven = []"
    "messageHandlers w_pair = [7, 8]" "calls w_pair = []" "console w_pair = []"
    by (simp_all add: w_seven_def w_pair_def onMessage_def init_def)
  have p: "JSON_parse env_json ''oops'' = None" "JSON_parse env_json left_text = Some left_msg"
    "JSON_parse env_picky ''42'' = Some (JNum 42)"
    by (simp_all add: env_json_parse env_picky_def)
  have e: "is_envelope left_msg" by (simp add: left_msg_def kinds_def)
  have q: "pass env_json left_msg [7] = [7]" "pass env_picky (JNum 42) [7, 8] = [7]"
    "\<exists>h\<in>set (messageHandlers w_pair). throws env_picky (JNum 42) h"
    by (simp_all add: f pass_def throws_def env_picky_def env_json_parse)
  note A = unparsable_dropped [where E = env_json and d = "''oops''" and w = w_seven
      and d' = left_text and m = left_msg]
  from A p have a: "onmessage env_json ''oops'' w_seven
             = (None, say Error ''Error parsing WebSocket message:'' w_seven)"
    and b: "invoked (calls (snd (onmessage env_json left_text
         (snd (onmessage env_json ''oops'' w_seven)))))
          = invoked (calls (snd (onmessage env_json left_text w_seven)))"
    by blast+
  note B = unparsable_dropped [where E = env_json and d = left_text and w = w_seven
      and d' = left_text and m = left_msg]
  from B p have c: "invoked (calls (snd (onmessage env_json left_text w_seven)))
             = invoked (calls w_seven) @ pass env_json left_msg (messageHandlers w_seven)"
    by blast
  note C = unparsable_dropped [where E = env_picky and d = "''42''" and w = w_pair
      and d' = left_text and m = "JNum 42"]
  from C p have d: "invoked (calls (snd (onmessage env_picky ''42'' w_pair)))
             = invoked (calls w_pair) @ pass env_picky (JNum 42) (messageHandlers w_pair)"
    and g: "console (snd (onmessage env_picky ''42'' w_pair))
          = console w_pair @ (Info, ''Received message:'')
              # (if \<exists>h\<in>set (messageHandlers w_pair). throws env_picky (JNum 42) h
                 then [(Error, ''Error parsing WebSocket message:'')] else [])"
    by blast+
  from q(3) g have g': "console (snd (onmessage env_picky ''42'' w_pair))
       = [(Info, ''Received message:''), (Error, ''Error parsing WebSocket message:'')]"
    by (simp add: f)
  from b c d e g' show ?thesis by (simp add: a f q(1,2) say_def)
qed

text \<open>
  The claim C8 fails: the text \<^verbatim>\<open>42\<close> parses as JSON, is not an envelope, and the
  registered handler is called with it.
\<close>

theorem non_envelope_dispatched:
  "JSON_parse env_json ''42'' = Some (JNum 42)
   \<and> \<not> is_envelope (JNum 42)
   \<and> calls (snd (onmessage env_json ''42'' w_seven)) = [Invoked 7 (JNum 42)]"
  by (simp add: env_json_parse onmessage_def onmessage_try_def notifyHandlers_def invoke_def
      w_seven_def onMessage_def init_def say_def)

section \<open>Echo suppression in the Editor\<close>

lemma ed_run_simps:
  "ed_run E [] x = x" "ed_run E (ev # evs) x = ed_run E evs (ed_step E x ev)"
  by (simp_all add: ed_run_def)

lemma handler_keeps_flag:
  "isRemoteUpdate ed \<Longrightarrow> isRemoteUpdate (snd (handleWebSocketMessage m ed))"
  by (simp add: handleWebSocketMessage_def ed_say_def Let_def split: sum.split)

lemma flagged_step:
  assumes "isRemoteUpdate ed" "\<forall>i. ev \<noteq> Flag_timer i"
  shows "snd (ed_step E (ed, w) ev) = w \<and> isRemoteUpdate (fst (ed_step E (ed, w) ev))"
proof (cases ev)
  case (Remote m)
  with assms handler_keeps_flag [of ed m] show ?thesis by simp
next
  case (Change s)
  with assms show ?thesis by (simp add: handleContentChange_def)
next
  case (Flag_timer i)
  with assms show ?thesis by simp
qed

lemma flagged_run:
  assumes "isRemoteUpdate ed" "\<forall>i. Flag_timer i \<notin> set evs"
  shows "snd (ed_run E evs (ed, w)) = w \<and> isRemoteUpdate (fst (ed_run E evs (ed, w)))"
  using assms
proof (induction evs arbitrary: ed)
  case Nil
  then show ?case by (simp add: ed_run_simps)
next
  case (Cons ev evs)
  from Cons.prems have n: "\<forall>i. ev \<noteq> Flag_timer i" "\<forall>i. Flag_timer i \<notin> set evs" by auto
  obtain ed' w' where s: "ed_step E (ed, w) ev = (ed', w')" by (cases "ed_step E (ed, w) ev")
  with flagged_step [OF Cons.prems(1) n(1), of E w] have "w' = w" "isRemoteUpdate ed'"
    by simp_all
  with Cons.IH [OF this(2) n(2)] s show ?case by (simp add: ed_run_simps)
qed

text \<open>
  C3, as the code has it. For an inbound message of type \<^verbatim>\<open>content_update\<close> whose
  payload is neither \<^verbatim>\<open>null\<close> nor \<^verbatim>\<open>undefined\<close>, the handler sets the flag,
  replaces the content by the payload's content and schedules a timer of 100 ms; any
  pending timer that fires clears the flag. A change event handled while the flag is set
  sends nothing, so from an inbound message until the next timer fires no change event
  sends anything. A change event handled while the flag is clear and the connection is
  open is sent, whatever timers are still pending.
\<close>

theorem remote_update_suppressed:
  "(get_prop m ''type'' = Inr (JStr ''content_update'') \<and> get_prop m ''payload'' = Inr pl
      \<and> pl \<noteq> JNull \<and> pl \<noteq> JUndefined \<longrightarrow>
      (\<exists>c. get_prop pl ''content'' = Inr c
        \<and> handleWebSocketMessage m ed =
            (None, ed\<lparr>isRemoteUpdate := True, content := c,
                      flag_timers := flag_timers ed @ [100]\<rparr>)))
   \<and> (i < length (flag_timers ed) \<longrightarrow> \<not> isRemoteUpdate (flag_timer_fire i ed))
   \<and> (isRemoteUpdate ed \<longrightarrow> snd (handleContentChange E s (ed, w)) = w)
   \<and> (isRemoteUpdate ed \<and> (\<forall>i. Flag_timer i \<notin> set evs) \<longrightarrow>
        sent (snd (ed_run E evs (ed, w))) = sent w
        \<and> isRemoteUpdate (fst (ed_run E evs (ed, w))))
   \<and> (\<not> isRemoteUpdate ed \<and> socket w = Some t \<and> ready w t = OPEN \<longrightarrow>
        sent (snd (handleContentChange E s (ed, w)))
          = sent w @ [(t, JSON_stringify E (content_update_msg s))])"
proof -
  have a: "\<exists>c. get_prop pl ''content'' = Inr c
        \<and> handleWebSocketMessage m ed =
            (None, ed\<lparr>isRemoteUpdate := True, content := c,
                      flag_timers := flag_timers ed @ [100]\<rparr>)"
    if h: "get_prop m ''type'' = Inr (JStr ''content_update'')" "get_prop m ''payload'' = Inr pl"
      "pl \<noteq> JNull" "pl \<noteq> JUndefined"
  proof -
    from h(3,4) obtain c where c: "get_prop pl ''content'' = Inr c" by (cases pl) simp_all
    with h(1,2) have "handleWebSocketMessage m ed =
            (None, ed\<lparr>isRemoteUpdate := True, content := c,
                      flag_timers := flag_timers ed @ [100]\<rparr>)"
      by (simp add: handleWebSocketMessage_def Let_def)
    with c show ?thesis by blast
  qed
  have b: "\<not> isRemoteUpdate (flag_timer_fire i ed)" if "i < length (flag_timers ed)"
    using that by (simp add: flag_timer_fire_def)
  have c: "snd (handleContentChange E s (ed, w)) = w" if "isRemoteUpdate ed"
    using that by (simp add: handleContentChange_def)
  have d: "sent (snd (handleContentChange E s (ed, w)))
          = sent w @ [(t, JSON_stringify E (content_update_msg s))]"
    if "\<not> isRemoteUpdate ed" "socket w = Some t" "ready w t = OPEN"
    using that by (simp add: handleContentChange_def send_def isConnected_def)
  have e: "sent (snd (ed_run E evs (ed, w))) = sent w
        \<and> isRemoteUpdate (fst (ed_run E evs (ed, w)))"
    if "isRemoteUpdate ed" "\<forall>i. Flag_timer i \<notin> set evs"
    using flagged_run [OF that, of E w] by simp
  from a b c d e show ?thesis by blast
qed

theorem remote_update_suppressed_witness:
  "handleWebSocketMessage (content_update_msg ''hi'') editor0 =
     (None, editor0\<lparr>isRemoteUpdate := True, content := JStr ''hi'', flag_timers := [100]\<rparr>)
   \<and> \<not> isRemoteUpdate (flag_timer_fire 0 (editor0\<lparr>isRemoteUpdate := True, flag_timers := [100]\<rparr>))
   \<and> snd (handleContentChange env0 ''hi'' (editor0\<lparr>isRemoteUpdate := True\<rparr>, w_open)) = w_open
   \<and> sent (snd (ed_run env0 [Change ''x'', Remote (content_update_msg ''y''), Change ''y'']
           (editor0\<lparr>isRemoteUpdate := True\<rparr>, w_open))) = []
   \<and> sent (snd (handleContentChange env0 ''hi'' (editor0, w_open)))
       = [(0, JSON_stringify env0 (content_update_msg ''hi''))]"
proof -
  have h: "get_prop (content_update_msg ''hi'') ''type'' = Inr (JStr ''content_update'')"
    "get_prop (content_update_msg ''hi'') ''payload'' = Inr (JObj [(''content'', JStr ''hi'')])"
    "JObj [(''content'', JStr ''hi'')] \<noteq> JNull" "JObj [(''content'', JStr ''hi'')] \<noteq> JUndefined"
    by (simp_all add: content_update_msg_def)
  have g: "get_prop (JObj [(''content'', JStr ''hi'')]) ''content'' = Inr (JStr ''hi'')" by simp
  have o: "socket w_open = Some 0" "ready w_open 0 = OPEN" "sent w_open = []"
    by (simp_all add: w_open_def run_simps eval_defs)
  have e: "\<not> isRemoteUpdate editor0" "isRemoteUpdate (editor0\<lparr>isRemoteUpdate := True\<rparr>)"
    "0 < length (flag_timers (editor0\<lparr>isRemoteUpdate := True, flag_timers := [100]\<rparr>))"
    by (simp_all add: editor0_def)
  have q: "\<forall>i. Flag_timer i \<notin> set [Change ''x'', Remote (content_update_msg ''y''), Change ''y'']"
    by simp
  note A = remote_update_suppressed [where m = "content_update_msg ''hi''"
      and pl = "JObj [(''content'', JStr ''hi'')]" and ed = editor0 and E = env0 and s = "''hi''"
      and w = w_open and i = 0 and evs = "[]" and t = 0]
  from A h obtain c where c: "get_prop (JObj [(''content'', JStr ''hi'')]) ''content'' = Inr c"
    "handleWebSocketMessage (content_update_msg ''hi'') editor0 =
            (None, editor0\<lparr>isRemoteUpdate := True, content := c,
                      flag_timers := flag_timers editor0 @ [100]\<rparr>)"
    by blast
  with g have a: "handleWebSocketMessage (content_update_msg ''hi'') editor0 =
     (None, editor0\<lparr>isRemoteUpdate := True, content := JStr ''hi'', flag_timers := [100]\<rparr>)"
    by (simp add: editor0_def)
  from A e(1) o have b: "sent (snd (handleContentChange env0 ''hi'' (editor0, w_open)))
       = [(0, JSON_stringify env0 (content_update_msg ''hi''))]"
    by simp
  note B = remote_update_suppressed [where m = JNull and pl = JNull
      and ed = "editor0\<lparr>isRemoteUpdate := True\<rparr>" and E = env0 and s = "''hi''"
      and w = w_open and i = 0
      and evs = "[Change ''x'', Remote (content_update_msg ''y''), Change ''y'']" and t = 0]
  from B e(2) q
  have d: "snd (handleContentChange env0 ''hi'' (editor0\<lparr>isRemoteUpdate := True\<rparr>, w_open)) = w_open"
    "sent (snd (ed_run env0 [Change ''x'', Remote (content_update_msg ''y''), Change ''y'']
           (editor0\<lparr>isRemoteUpdate := True\<rparr>, w_open))) = sent w_open"
    by blast+
  note C = remote_update_suppressed [where m = JNull and pl = JNull
      and ed = "editor0\<lparr>isRemoteUpdate := True, flag_timers := [100]\<rparr>" and E = env0
      and s = "''hi''" and w = w_open and i = 0 and evs = "[]" and t = 0]
  from C e(3)
  have f: "\<not> isRemoteUpdate (flag_timer_fire 0 (editor0\<lparr>isRemoteUpdate := True, flag_timers := [100]\<rparr>))"
    by blast
  from a b d f o show ?thesis by simp
qed

text \<open>
  The claim C3 fails in two ways. For a \<^verbatim>\<open>content_update\<close> message whose payload is
  \<^verbatim>\<open>null\<close> the handler sets the flag and throws: the content is not replaced and no
  timer is scheduled, so nothing clears the flag. And the timer of an earlier message
  clears the flag that a later message has set: the change event for the content of the
  later message is then sent although that message's own timer is still pending.
\<close>

theorem echo_not_suppressed:
  "handleWebSocketMessage null_update editor0 = (Some TypeError, editor0\<lparr>isRemoteUpdate := True\<rparr>)
   \<and> flag_timers (editor0\<lparr>isRemoteUpdate := True\<rparr>) = []
   \<and> sent w_open = []
   \<and> sent (snd (ed_run env0 [Remote (content_update_msg ''a''), Remote (content_update_msg ''b''),
        Flag_timer 0, Change ''b''] (editor0, w_open)))
       = [(0, JSON_stringify env0 (content_update_msg ''b''))]
   \<and> flag_timers (fst (ed_run env0 [Remote (content_update_msg ''a''),
        Remote (content_update_msg ''b''), Flag_timer 0, Change ''b''] (editor0, w_open))) = [100]"
proof -
  have o: "socket w_open = Some 0" "ready w_open 0 = OPEN" "sent w_open = []"
    by (simp_all add: w_open_def run_simps eval_defs)
  have a: "handleWebSocketMessage null_update editor0
      = (Some TypeError, editor0\<lparr>isRemoteUpdate := True\<rparr>)"
    by (simp add: handleWebSocketMessage_def null_update_def Let_def)
  have b: "fst (ed_run env0 [Remote (content_update_msg ''a''), Remote (content_update_msg ''b''),
        Flag_timer 0] (editor0, w_open))
      = editor0\<lparr>isRemoteUpdate := False, content := JStr ''b'', flag_timers := [100]\<rparr>"
    "snd (ed_run env0 [Remote (content_update_msg ''a''), Remote (content_update_msg ''b''),
        Flag_timer 0] (editor0, w_open)) = w_open"
    by (simp_all add: ed_run_simps handleWebSocketMessage_def content_update_msg_def
        flag_timer_fire_def editor0_def Let_def)
  have c: "ed_run env0 [Remote (content_update_msg ''a''), Remote (content_update_msg ''b''),
        Flag_timer 0, Change ''b''] (editor0, w_open)
      = ed_step env0 (ed_run env0 [Remote (content_update_msg ''a''),
          Remote (content_update_msg ''b''), Flag_timer 0] (editor0, w_open)) (Change ''b'')"
    by (simp add: ed_run_def)
  obtain ed where e: "ed_run env0 [Remote (content_update_msg ''a''),
      Remote (content_update_msg ''b''), Flag_timer 0] (editor0, w_open) = (ed, w_open)"
    using b(2) by (metis prod.collapse)
  with b(1) have ed: "ed = editor0\<lparr>isRemoteUpdate := False, content := JStr ''b'',
      flag_timers := [100]\<rparr>" by simp
  from c e ed o have d: "sent (snd (ed_run env0 [Remote (content_update_msg ''a''),
        Remote (content_update_msg ''b''), Flag_timer 0, Change ''b''] (editor0, w_open)))
       = [(0, JSON_stringify env0 (content_update_msg ''b''))]"
    "flag_timers (fst (ed_run env0 [Remote (content_update_msg ''a''),
        Remote (content_update_msg ''b''), Flag_timer 0, Change ''b''] (editor0, w_open))) = [100]"
    by (simp_all add: handleContentChange_def send_def isConnected_def)
  from a d o show ?thesis by (simp add: editor0_def)
qed

end
